theory Spec2Isabelle
  imports Main "HOL-Library.Sublist"
begin

section \<open>Python values used by the two analyzer scripts\<close>

text \<open>
  The scripts \<^verbatim>\<open>scripts/analyze_network_iterative.py\<close> and
  \<^verbatim>\<open>scripts/analyze_network_local.py\<close> are embedded shallowly. A Python \<^verbatim>\<open>str\<close>
  is a \<^typ>\<open>string\<close> whose characters are the code points U+0000 to U+00FF; on these
  \<^verbatim>\<open>isspace\<close>, \<^verbatim>\<open>isalnum\<close> and \<^verbatim>\<open>lower\<close> are given as Python's Unicode tables have
  them. \<^verbatim>\<open>upper\<close> and \<^verbatim>\<open>capitalize\<close> can leave that range (U+00B5, U+00DF, U+00FF), so
  they are taken from the world. An exception is a value of \<open>py_error\<close> carrying its
  message; a call that may raise returns \<open>py_error + 'a\<close>.
\<close>

datatype py_error =
    OSError string
  | ValueError string
  | KeyError string
  | EOFError string
  | JSONDecodeError string
  | ResponseError string
  | TypeError string
  | UnboundLocalError string

fun str_exc :: "py_error \<Rightarrow> string" where
  "str_exc (OSError m) = m"
| "str_exc (ValueError m) = m"
| "str_exc (KeyError m) = m"
| "str_exc (EOFError m) = m"
| "str_exc (JSONDecodeError m) = m"
| "str_exc (ResponseError m) = m"
| "str_exc (TypeError m) = m"
| "str_exc (UnboundLocalError m) = m"

subsection \<open>Decimal rendering of integers in f-strings\<close>

definition digit_char :: "nat \<Rightarrow> char" where
  "digit_char d = ''0123456789'' ! (d mod 10)"

fun str_nat :: "nat \<Rightarrow> string" where
  "str_nat n = (if n < 10 then [digit_char n] else str_nat (n div 10) @ [digit_char (n mod 10)])"

declare str_nat.simps [simp del]

text \<open>Reading a decimal numeral back, used to say what a rendered number denotes.\<close>

definition digit_val :: "char \<Rightarrow> nat option" where
  "digit_val c = map_of (zip ''0123456789'' [0 ..< 10]) c"

fun read_nat_acc :: "nat \<Rightarrow> string \<Rightarrow> nat option" where
  "read_nat_acc acc [] = Some acc"
| "read_nat_acc acc (c # cs) =
     (case digit_val c of None \<Rightarrow> None | Some d \<Rightarrow> read_nat_acc (10 * acc + d) cs)"

definition read_nat :: "string \<Rightarrow> nat option" where
  "read_nat s = (if s = [] then None else read_nat_acc 0 s)"

subsection \<open>String methods\<close>

text \<open>The upper-case letters below U+0100 and, position by position, their lower-case
  forms: A to Z, U+00C0 to U+00D6 and U+00D8 to U+00DE.\<close>

definition upper_letters :: string where
  "upper_letters = ''ABCDEFGHIJKLMNOPQRSTUVWXYZ''
     @ [CHR 0xC0, CHR 0xC1, CHR 0xC2, CHR 0xC3, CHR 0xC4, CHR 0xC5, CHR 0xC6, CHR 0xC7,
        CHR 0xC8, CHR 0xC9, CHR 0xCA, CHR 0xCB, CHR 0xCC, CHR 0xCD, CHR 0xCE, CHR 0xCF,
        CHR 0xD0, CHR 0xD1, CHR 0xD2, CHR 0xD3, CHR 0xD4, CHR 0xD5, CHR 0xD6,
        CHR 0xD8, CHR 0xD9, CHR 0xDA, CHR 0xDB, CHR 0xDC, CHR 0xDD, CHR 0xDE]"

definition lower_letters :: string where
  "lower_letters = ''abcdefghijklmnopqrstuvwxyz''
     @ [CHR 0xE0, CHR 0xE1, CHR 0xE2, CHR 0xE3, CHR 0xE4, CHR 0xE5, CHR 0xE6, CHR 0xE7,
        CHR 0xE8, CHR 0xE9, CHR 0xEA, CHR 0xEB, CHR 0xEC, CHR 0xED, CHR 0xEE, CHR 0xEF,
        CHR 0xF0, CHR 0xF1, CHR 0xF2, CHR 0xF3, CHR 0xF4, CHR 0xF5, CHR 0xF6,
        CHR 0xF8, CHR 0xF9, CHR 0xFA, CHR 0xFB, CHR 0xFC, CHR 0xFD, CHR 0xFE]"

text \<open>The other alphanumeric characters below U+0100: the digits, the ordinal indicators,
  the superscript digits, the micro sign, the fractions, sharp s and y with diaeresis.\<close>

definition other_alnum :: string where
  "other_alnum = ''0123456789''
     @ [CHR 0xAA, CHR 0xB2, CHR 0xB3, CHR 0xB5, CHR 0xB9, CHR 0xBA, CHR 0xBC, CHR 0xBD,
        CHR 0xBE, CHR 0xDF, CHR 0xFF]"

definition lower_char :: "char \<Rightarrow> char" where
  "lower_char c = (case map_of (zip upper_letters lower_letters) c of None \<Rightarrow> c | Some d \<Rightarrow> d)"

definition lower :: "string \<Rightarrow> string" where
  "lower s = map lower_char s"

definition isalnum :: "char \<Rightarrow> bool" where
  "isalnum c \<longleftrightarrow> c \<in> set (upper_letters @ lower_letters @ other_alnum)"

definition isspace :: "char \<Rightarrow> bool" where
  "isspace c \<longleftrightarrow> c \<in> set [CHR '' '', CHR 0x09, CHR 0x0A, CHR 0x0B, CHR 0x0C, CHR 0x0D,
     CHR 0x1C, CHR 0x1D, CHR 0x1E, CHR 0x1F, CHR 0x85, CHR 0xA0]"

definition lstrip :: "string \<Rightarrow> string" where
  "lstrip s = dropWhile isspace s"

definition strip :: "string \<Rightarrow> string" where
  "strip s = rev (dropWhile isspace (rev (dropWhile isspace s)))"

definition lstrip_char :: "char \<Rightarrow> string \<Rightarrow> string" where
  "lstrip_char c s = dropWhile (\<lambda>x. x = c) s"

definition replace_char :: "char \<Rightarrow> char \<Rightarrow> string \<Rightarrow> string" where
  "replace_char a b s = map (\<lambda>c. if c = a then b else c) s"

text \<open>\<^verbatim>\<open>s.split(sep)\<close> for a one-character separator: never the empty list.\<close>

fun split_char :: "char \<Rightarrow> string \<Rightarrow> string list" where
  "split_char sep [] = [[]]"
| "split_char sep (c # cs) =
     (if c = sep then [] # split_char sep cs
      else (case split_char sep cs of [] \<Rightarrow> [[c]] | w # ws \<Rightarrow> (c # w) # ws))"

text \<open>\<^verbatim>\<open>s.find(c)\<close> and \<^verbatim>\<open>s.rfind(c)\<close> for one character: the index, or \<open>-1\<close>.\<close>

fun find_from :: "int \<Rightarrow> char \<Rightarrow> string \<Rightarrow> int" where
  "find_from i c [] = -1"
| "find_from i c (x # xs) = (if x = c then i else find_from (i + 1) c xs)"

definition find_char :: "char \<Rightarrow> string \<Rightarrow> int" where
  "find_char c s = find_from 0 c s"

definition rfind_char :: "char \<Rightarrow> string \<Rightarrow> int" where
  "rfind_char c s =
     (let r = find_from 0 c (rev s) in if r < 0 then -1 else int (length s) - 1 - r)"

text \<open>\<^verbatim>\<open>s[a:b]\<close> for indices \<open>0 \<le> a\<close>, \<open>0 \<le> b\<close>.\<close>

definition slice :: "int \<Rightarrow> int \<Rightarrow> 'a list \<Rightarrow> 'a list" where
  "slice a b s = drop (nat a) (take (nat b) s)"

section \<open>Paths and the file system\<close>

text \<open>
  A \<^verbatim>\<open>pathlib.Path\<close> is its anchor (absolute or not) and its components.
  \<open>path_div\<close> is the \<^verbatim>\<open>/\<close> operator with a string operand, \<open>relative_to\<close> the method of
  that name: it raises \<^verbatim>\<open>ValueError\<close> (the result \<open>None\<close>) unless both paths have the same
  anchor and the argument's components start the receiver's. The text of that
  \<^verbatim>\<open>ValueError\<close> is the world's \<open>subpath_message\<close>.
\<close>

record path =
  anchored :: bool
  parts :: "string list"

definition path_parts :: "string \<Rightarrow> string list" where
  "path_parts s = filter (\<lambda>c. c \<noteq> [] \<and> c \<noteq> ''.'') (split_char CHR ''/'' s)"

definition Path :: "string \<Rightarrow> path" where
  "Path s = \<lparr>anchored = (s \<noteq> [] \<and> hd s = CHR ''/''), parts = path_parts s\<rparr>"

definition path_div :: "path \<Rightarrow> string \<Rightarrow> path" where
  "path_div p s =
     (if s \<noteq> [] \<and> hd s = CHR ''/'' then Path s else p\<lparr>parts := parts p @ path_parts s\<rparr>)"

fun join_with :: "string \<Rightarrow> string list \<Rightarrow> string" where
  "join_with sep [] = []"
| "join_with sep [x] = x"
| "join_with sep (x # y # ys) = x @ sep @ join_with sep (y # ys)"

definition str_path :: "path \<Rightarrow> string" where
  "str_path p =
     (if anchored p then ''/'' @ join_with ''/'' (parts p)
      else if parts p = [] then ''.'' else join_with ''/'' (parts p))"

definition relative_to :: "path \<Rightarrow> path \<Rightarrow> path option" where
  "relative_to p other =
     (if anchored p = anchored other \<and> prefix (parts other) (parts p)
      then Some \<lparr>anchored = False, parts = drop (length (parts other)) (parts p)\<rparr>
      else None)"

text \<open>\<^verbatim>\<open>Path.suffix\<close>: the last component from its last dot on, when that dot is
  neither its first nor its last character.\<close>

definition suffix_of :: "path \<Rightarrow> string" where
  "suffix_of p =
     (if parts p = [] then []
      else let name = last (parts p); i = rfind_char CHR ''.'' name
           in if 0 < i \<and> i < int (length name) - 1 then drop (nat i) name else [])"

text \<open>
  What the scripts observe of the file system. \<open>walk fs d pattern\<close> lists the entries
  below directory \<open>d\<close>, each as its components relative to \<open>d\<close>, in the order in which the
  traversal that \<^verbatim>\<open>d.rglob(pattern)\<close> makes comes to them. \<open>stat_size\<close> and \<open>read_text\<close> are \<^verbatim>\<open>Path.stat().st_size\<close> and
  \<^verbatim>\<open>Path.read_text(encoding='utf-8', errors='ignore')\<close>; either may raise.
\<close>

record filesystem =
  walk :: "path \<Rightarrow> string \<Rightarrow> string list list"
  is_file :: "path \<Rightarrow> bool"
  stat_size :: "path \<Rightarrow> py_error + nat"
  read_text :: "path \<Rightarrow> py_error + string"

section \<open>\<^verbatim>\<open>read_file_safe\<close> (identical in both scripts)\<close>

text \<open>
  The result type keeps what the annotation \<^verbatim>\<open>Optional[str]\<close> allows: \<open>Inl\<close> is an
  exception leaving the method, \<open>Inr None\<close> is \<^verbatim>\<open>None\<close>. \<open>read_file_try\<close> is the body of
  the \<^verbatim>\<open>try\<close> block, in which \<^verbatim>\<open>stat()\<close> is called once for the test and once for the
  message; \<open>read_file_safe\<close> adds the handler \<^verbatim>\<open>except Exception as e\<close>.
\<close>

definition read_file_try :: "filesystem \<Rightarrow> path \<Rightarrow> int \<Rightarrow> py_error + string option" where
  "read_file_try fs file_path max_size =
     (case stat_size fs file_path of
        Inl e \<Rightarrow> Inl e
      | Inr sz \<Rightarrow>
          if int sz > max_size then
            (case stat_size fs file_path of
               Inl e \<Rightarrow> Inl e
             | Inr sz' \<Rightarrow> Inr (Some (''[File too large: '' @ str_nat sz' @ '' bytes]'')))
          else
            (case read_text fs file_path of
               Inl e \<Rightarrow> Inl e
             | Inr content \<Rightarrow> Inr (Some content)))"

definition read_file_safe :: "filesystem \<Rightarrow> path \<Rightarrow> int \<Rightarrow> py_error + string option" where
  "read_file_safe fs file_path max_size =
     (case read_file_try fs file_path max_size of
        Inl e \<Rightarrow> Inr (Some (''[Error reading file: '' @ str_exc e @ '']''))
      | Inr r \<Rightarrow> Inr r)"

definition default_max_size :: int where
  "default_max_size = 100000"

section \<open>\<^verbatim>\<open>discover_agents\<close> (identical in both scripts)\<close>

text \<open>
  Matching one path component against one pattern component, where \<^verbatim>\<open>*\<close> stands for any
  run of characters and every other character for itself (the declared patterns use no
  other wildcard), and matching a relative path against a pattern whose component \<^verbatim>\<open>**\<close>
  stands for any number of directory levels.
\<close>

fun wildcard :: "string \<Rightarrow> string \<Rightarrow> bool" where
  "wildcard [] [] = True"
| "wildcard [] (c # cs) = False"
| "wildcard (p # ps) [] = (p = CHR ''*'' \<and> wildcard ps [])"
| "wildcard (p # ps) (c # cs) =
     (if p = CHR ''*'' then wildcard ps (c # cs) \<or> wildcard (p # ps) cs
      else p = c \<and> wildcard ps cs)"

fun glob_match :: "string list \<Rightarrow> string list \<Rightarrow> bool" where
  "glob_match [] [] = True"
| "glob_match [] (c # cs) = False"
| "glob_match (p # ps) [] = (p = ''**'' \<and> glob_match ps [])"
| "glob_match (p # ps) (c # cs) =
     (if p = ''**'' then glob_match ps (c # cs) \<or> glob_match (p # ps) cs
      else wildcard p c \<and> glob_match ps cs)"

text \<open>\<^verbatim>\<open>directory.rglob(pattern)\<close> is \<^verbatim>\<open>directory.glob("**/" + pattern)\<close>: the entries
  below the directory whose relative path matches, as paths that extend the directory's.\<close>

definition rglob_matches :: "string \<Rightarrow> string list \<Rightarrow> bool" where
  "rglob_matches pattern rel = glob_match (''**'' # split_char CHR ''/'' pattern) rel"

definition below :: "path \<Rightarrow> string list \<Rightarrow> path" where
  "below directory rel = directory\<lparr>parts := parts directory @ rel\<rparr>"

definition rglob :: "filesystem \<Rightarrow> path \<Rightarrow> string \<Rightarrow> path list" where
  "rglob fs directory pattern =
     map (below directory) (filter (rglob_matches pattern) (walk fs directory pattern))"

text \<open>The dictionary \<^verbatim>\<open>agent_files\<close>, in insertion order.\<close>

type_synonym buckets = "(string \<times> path list) list"

definition empty_buckets :: buckets where
  "empty_buckets = [(''json'', []), (''yaml'', []), (''md'', []), (''txt'', []), (''other'', [])]"

definition patterns :: "string list" where
  "patterns = [''*agent*.json'', ''*agent*.yaml'', ''*agent*.yml'', ''*.agent.*'',
     ''*prompt*.md'', ''*system*.md'', ''agents/**/*'', ''prompts/**/*'', ''.claude/**/*'']"

definition bucket_append :: "string \<Rightarrow> path \<Rightarrow> buckets \<Rightarrow> buckets" where
  "bucket_append key p agent_files =
     map (\<lambda>(k, ps). if k = key then (k, ps @ [p]) else (k, ps)) agent_files"

text \<open>The body of the inner loop: one \<^verbatim>\<open>file_path\<close> that \<^verbatim>\<open>rglob\<close> yielded.\<close>

definition add_file :: "filesystem \<Rightarrow> path \<Rightarrow> buckets \<Rightarrow> buckets" where
  "add_file fs file_path agent_files =
     (if is_file fs file_path then
        (let ext = lstrip_char CHR ''.'' (lower (suffix_of file_path))
         in if ext \<in> set (map fst agent_files)
            then bucket_append ext file_path agent_files
            else bucket_append ''other'' file_path agent_files)
      else agent_files)"

definition discover_agents :: "filesystem \<Rightarrow> path \<Rightarrow> buckets" where
  "discover_agents fs directory =
     fold (\<lambda>pattern agent_files. fold (add_file fs) (rglob fs directory pattern) agent_files)
       patterns empty_buckets"

text \<open>\<^verbatim>\<open>sum(len(files) for files in agent_files.values())\<close>, and all the paths of the
  result, bucket after bucket.\<close>

definition total_files :: "buckets \<Rightarrow> nat" where
  "total_files agent_files = sum_list (map (\<lambda>(k, ps). length ps) agent_files)"

definition all_files :: "buckets \<Rightarrow> path list" where
  "all_files agent_files = concat (map snd agent_files)"

section \<open>The suggestions and the world of a run\<close>

text \<open>
  A suggestion is the dictionary that the model is asked for; the embedding takes the
  well-formed ones, whose attributes are all present and are strings
  (\<^verbatim>\<open>responsibilities\<close> a list of strings, read with \<^verbatim>\<open>agent.get\<close>).
\<close>

record agent =
  agent_name :: string
  agent_type :: string
  priority :: string
  purpose :: string
  rationale :: string
  responsibilities :: "string list"
  interfaces :: string
  agent_value :: string

text \<open>
  A call of \<^verbatim>\<open>ollama.generate\<close> is identified by what its prompt is built from: the
  context for the suggestions, the agent for a system prompt, the analysis for the batch
  script's two calls. Its result is the text \<^verbatim>\<open>response['response']\<close>, or an exception.
\<close>

datatype request =
    SuggestionsRequest string
  | SystemPromptRequest agent
  | AnalysisRequest string
  | AllPromptsRequest string

text \<open>
  The world outside the process: the file system, the working directory (always
  absolute), the clock, the backend, \<^verbatim>\<open>json.loads\<close>, whether creating a directory or
  opening a file for writing fails, and of the Python runtime \<^verbatim>\<open>str.upper\<close>,
  \<^verbatim>\<open>str.capitalize\<close> and the text that \<^verbatim>\<open>relative_to\<close> gives its \<^verbatim>\<open>ValueError\<close>.
\<close>

record world =
  disk :: filesystem
  cwd_parts :: "string list"
  now :: string
  resolve :: "path \<Rightarrow> path"
  exists_path :: "path \<Rightarrow> bool"
  is_dir :: "path \<Rightarrow> bool"
  ollama_list :: "nat \<Rightarrow> py_error + string list"
  generate :: "request \<Rightarrow> py_error + string"
  json_loads :: "string \<Rightarrow> py_error + agent list"
  mkdir_error :: "path \<Rightarrow> py_error option"
  open_error :: "path \<Rightarrow> py_error option"
  str_upper :: "string \<Rightarrow> string"
  str_capitalize :: "string \<Rightarrow> string"
  subpath_message :: "path \<Rightarrow> path \<Rightarrow> string"

definition cwd :: "world \<Rightarrow> path" where
  "cwd w = \<lparr>anchored = True, parts = cwd_parts w\<rparr>"

definition absolute :: "world \<Rightarrow> path \<Rightarrow> path" where
  "absolute w p = (if anchored p then p else \<lparr>anchored = True, parts = cwd_parts w @ parts p\<rparr>)"

text \<open>
  What a process does to the world, and the analyzer's own attributes. \<open>stdin\<close> holds the
  lines still to be read by \<^verbatim>\<open>input()\<close>; \<open>presented\<close> records the calls of
  \<^verbatim>\<open>present_suggestion\<close> (agent, index, total); \<open>written\<close> records each file opened with
  mode \<^verbatim>\<open>'w'\<close> and the text it holds when it is closed. The three buckets are
  \<^verbatim>\<open>self.decisions\<close>.
\<close>

record state =
  model :: string
  accepted :: "agent list"
  rejected :: "agent list"
  skipped :: "agent list"
  stdin :: "string list"
  presented :: "(agent \<times> nat \<times> nat) list"
  written :: "(path \<times> string) list"

datatype 'a outcome = Returns 'a state | Raises py_error state

fun final_state :: "'a outcome \<Rightarrow> state" where
  "final_state (Returns x st) = st"
| "final_state (Raises e st) = st"

definition init :: "string \<Rightarrow> string list \<Rightarrow> state" where
  "init model_name lines =
     \<lparr>model = model_name, accepted = [], rejected = [], skipped = [],
      stdin = lines, presented = [], written = []\<rparr>"

definition findings_dir :: path where
  "findings_dir = Path ''findings''"

definition system_prompts_dir :: path where
  "system_prompts_dir = path_div findings_dir ''system-prompts''"

definition nl :: string where
  "nl = [CHR 0x0A]"

text \<open>Creating the parent directory and opening a file for writing, with the strings
  passed to \<^verbatim>\<open>f.write\<close> in order: the file holds their concatenation; an \<^verbatim>\<open>OSError\<close>
  of \<^verbatim>\<open>mkdir\<close> or \<^verbatim>\<open>open\<close> leaves no record.\<close>

definition write_file :: "world \<Rightarrow> path \<Rightarrow> path \<Rightarrow> string list \<Rightarrow> state \<Rightarrow> unit outcome" where
  "write_file w dir file chunks st =
     (case mkdir_error w dir of
        Some e \<Rightarrow> Raises e st
      | None \<Rightarrow>
          (case open_error w file of
             Some e \<Rightarrow> Raises e st
           | None \<Rightarrow> Returns () (st\<lparr>written := written st @ [(file, concat chunks)]\<rparr>)))"

section \<open>\<^verbatim>\<open>IterativeAgentAnalyzer\<close>\<close>

subsection \<open>\<^verbatim>\<open>build_context\<close>\<close>

fun inventory_lines :: "world \<Rightarrow> path \<Rightarrow> path list \<Rightarrow> py_error + string" where
  "inventory_lines w directory [] = Inr []"
| "inventory_lines w directory (file_path # files) =
     (case relative_to file_path directory of
        None \<Rightarrow> Inl (ValueError (subpath_message w file_path directory))
      | Some rel_path \<Rightarrow>
          (case inventory_lines w directory files of
             Inl e \<Rightarrow> Inl e
           | Inr rest \<Rightarrow> Inr (''- `'' @ str_path rel_path @ ''`'' @ nl @ rest)))"

fun inventory :: "world \<Rightarrow> path \<Rightarrow> buckets \<Rightarrow> py_error + string" where
  "inventory w directory [] = Inr []"
| "inventory w directory ((file_type, files) # others) =
     (if files \<noteq> [] then
        (case inventory_lines w directory (take 10 files) of
           Inl e \<Rightarrow> Inl e
         | Inr ls \<Rightarrow>
             (case inventory w directory others of
                Inl e \<Rightarrow> Inl e
              | Inr rest \<Rightarrow>
                  Inr (''### '' @ str_upper w file_type @ '' Files ('' @ str_nat (length files)
                       @ '')'' @ nl
                       @ ls
                       @ (if length files > 10
                          then ''- ... and '' @ str_nat (length files - 10) @ '' more'' @ nl else [])
                       @ nl @ rest)))
      else inventory w directory others)"

text \<open>The sample loops thread \<^verbatim>\<open>sample_count\<close>; both \<^verbatim>\<open>break\<close>s test it against
  \<^verbatim>\<open>max_samples = 5\<close>. \<^verbatim>\<open>content[:2000]\<close> raises \<^verbatim>\<open>TypeError\<close> on \<^verbatim>\<open>None\<close>.\<close>

fun sample_files ::
  "world \<Rightarrow> path \<Rightarrow> string \<Rightarrow> path list \<Rightarrow> nat \<Rightarrow> py_error + (string \<times> nat)" where
  "sample_files w directory file_type [] sample_count = Inr ([], sample_count)"
| "sample_files w directory file_type (file_path # files) sample_count =
     (if sample_count \<ge> 5 then Inr ([], sample_count)
      else
        (case relative_to file_path directory of
           None \<Rightarrow> Inl (ValueError (subpath_message w file_path directory))
         | Some rel_path \<Rightarrow>
             (case read_file_safe (disk w) file_path default_max_size of
                Inl e \<Rightarrow> Inl e
              | Inr None \<Rightarrow>
                  Inl (TypeError ([CHR 0x27] @ ''NoneType'' @ [CHR 0x27]
                                  @ '' object is not subscriptable''))
              | Inr (Some content) \<Rightarrow>
                  (case sample_files w directory file_type files (sample_count + 1) of
                     Inl e \<Rightarrow> Inl e
                   | Inr (rest, n) \<Rightarrow>
                       Inr (''### File: `'' @ str_path rel_path @ ''`'' @ nl @ nl
                            @ ''```'' @ file_type @ nl @ take 2000 content @ nl @ ''```'' @ nl @ nl
                            @ rest, n)))))"

fun samples :: "world \<Rightarrow> path \<Rightarrow> buckets \<Rightarrow> nat \<Rightarrow> py_error + string" where
  "samples w directory [] sample_count = Inr []"
| "samples w directory ((file_type, files) # others) sample_count =
     (if sample_count \<ge> 5 then Inr []
      else
        (case sample_files w directory file_type (take 2 files) sample_count of
           Inl e \<Rightarrow> Inl e
         | Inr (text, n) \<Rightarrow>
             (case samples w directory others n of
                Inl e \<Rightarrow> Inl e
              | Inr rest \<Rightarrow> Inr (text @ rest))))"

definition build_context :: "world \<Rightarrow> path \<Rightarrow> buckets \<Rightarrow> py_error + string" where
  "build_context w directory agent_files =
     (case inventory w directory agent_files of
        Inl e \<Rightarrow> Inl e
      | Inr inventory_text \<Rightarrow>
          (case samples w directory agent_files 0 of
             Inl e \<Rightarrow> Inl e
           | Inr samples_text \<Rightarrow>
               Inr (''# Agent Network Analysis Context'' @ nl @ nl
                    @ ''**Directory**: '' @ str_path (absolute w directory) @ nl @ nl
                    @ ''**Total agent-related files found**: ''
                    @ str_nat (total_files agent_files) @ nl @ nl
                    @ ''## File Inventory'' @ nl @ nl
                    @ inventory_text
                    @ ''## Sample File Contents'' @ nl @ nl
                    @ samples_text)))"

subsection \<open>\<^verbatim>\<open>generate_agent_suggestions\<close>\<close>

text \<open>
  \<open>parse_suggestions\<close> is the \<^verbatim>\<open>try\<close> block from the assignment of \<^verbatim>\<open>response_text\<close>
  on. The handler of \<^verbatim>\<open>json.JSONDecodeError\<close> prints \<^verbatim>\<open>response_text[:500]\<close> before it
  returns the empty list: when it is \<^verbatim>\<open>ollama.generate\<close> that raised the
  \<^verbatim>\<open>JSONDecodeError\<close>, \<^verbatim>\<open>response_text\<close> is not bound yet and \<^verbatim>\<open>UnboundLocalError\<close> leaves
  the method. The handler of \<^verbatim>\<open>Exception\<close> returns the empty list.
\<close>

definition parse_suggestions :: "world \<Rightarrow> string \<Rightarrow> py_error + agent list" where
  "parse_suggestions w response =
     (let response_text = strip response;
          start = find_char CHR ''['' response_text;
          end = rfind_char CHR '']'' response_text + 1
      in if start \<ge> 0 \<and> end > start then
           (case json_loads w (slice start end response_text) of
              Inl e \<Rightarrow> Inl e
            | Inr suggestions \<Rightarrow> Inr suggestions)
         else Inr [])"

definition generate_agent_suggestions :: "world \<Rightarrow> string \<Rightarrow> py_error + agent list" where
  "generate_agent_suggestions w context =
     (case generate w (SuggestionsRequest context) of
        Inl (JSONDecodeError m) \<Rightarrow>
          Inl (UnboundLocalError (''cannot access local variable '' @ [CHR 0x27]
                 @ ''response_text'' @ [CHR 0x27]
                 @ '' where it is not associated with a value''))
      | Inl e \<Rightarrow> Inr []
      | Inr response \<Rightarrow>
          (case parse_suggestions w response of
             Inl (JSONDecodeError m) \<Rightarrow> Inr []
           | Inl e \<Rightarrow> Inr []
           | Inr suggestions \<Rightarrow> Inr suggestions))"

subsection \<open>\<^verbatim>\<open>present_suggestion\<close> and \<^verbatim>\<open>get_user_decision\<close>\<close>

definition present_suggestion :: "agent \<Rightarrow> nat \<Rightarrow> nat \<Rightarrow> state \<Rightarrow> state" where
  "present_suggestion agent index n st =
     st\<lparr>presented := presented st @ [(agent, index, n)]\<rparr>"

text \<open>One pass of the \<^verbatim>\<open>while True\<close> loop on the line read: the decision returned, or
  \<open>None\<close> for an invalid choice, after which the loop reads again.\<close>

definition choice_decision :: "string \<Rightarrow> string option" where
  "choice_decision line =
     (let choice = lower (strip line)
      in if choice \<in> set [''y'', ''yes''] then Some ''yes''
         else if choice \<in> set [''n'', ''no''] then Some ''no''
         else if choice \<in> set [''s'', ''skip''] then Some ''skip''
         else if choice \<in> set [''q'', ''quit'', ''stop''] then Some ''stop''
         else None)"

fun read_decision :: "string list \<Rightarrow> (string \<times> string list) option" where
  "read_decision [] = None"
| "read_decision (line # lines) =
     (case choice_decision line of
        Some decision \<Rightarrow> Some (decision, lines)
      | None \<Rightarrow> read_decision lines)"

text \<open>\<^verbatim>\<open>input()\<close> raises \<^verbatim>\<open>EOFError\<close> when no line is left.\<close>

definition get_user_decision :: "state \<Rightarrow> string outcome" where
  "get_user_decision st =
     (case read_decision (stdin st) of
        None \<Rightarrow> Raises (EOFError ''EOF when reading a line'') (st\<lparr>stdin := []\<rparr>)
      | Some (decision, lines) \<Rightarrow> Returns decision (st\<lparr>stdin := lines\<rparr>))"

subsection \<open>\<^verbatim>\<open>generate_system_prompt\<close> and \<^verbatim>\<open>save_agent_prompt\<close>\<close>

definition generate_system_prompt :: "world \<Rightarrow> agent \<Rightarrow> string" where
  "generate_system_prompt w agent =
     (case generate w (SystemPromptRequest agent) of
        Inr response \<Rightarrow> strip response
      | Inl e \<Rightarrow> ''# '' @ agent_name agent @ nl @ nl @ ''Error generating prompt: '' @ str_exc e)"

definition prompt_filename :: "agent \<Rightarrow> string" where
  "prompt_filename agent =
     (let filename = replace_char CHR ''_'' CHR ''-''
                       (replace_char CHR '' '' CHR ''-'' (lower (agent_name agent)))
      in filter (\<lambda>c. isalnum c \<or> c = CHR ''-'') filename)"

definition prompt_target_dir :: "agent \<Rightarrow> path" where
  "prompt_target_dir agent =
     (if agent_type agent = ''orchestration''
      then path_div system_prompts_dir ''orchestration''
      else path_div system_prompts_dir ''action'')"

definition save_agent_prompt :: "world \<Rightarrow> agent \<Rightarrow> string \<Rightarrow> state \<Rightarrow> path outcome" where
  "save_agent_prompt w agent prompt_content st =
     (let target_dir = prompt_target_dir agent;
          output_file = path_div target_dir (prompt_filename agent @ ''.md'')
      in case write_file w target_dir output_file
                [''# '' @ agent_name agent @ nl @ nl,
                 ''**Type**: '' @ str_capitalize w (agent_type agent) @ nl,
                 ''**Priority**: '' @ str_capitalize w (priority agent) @ nl,
                 ''**Generated**: '' @ now w @ nl @ nl,
                 ''---'' @ nl @ nl,
                 prompt_content] st of
           Raises e st' \<Rightarrow> Raises e st'
         | Returns u st' \<Rightarrow> Returns output_file st')"

subsection \<open>\<^verbatim>\<open>save_summary\<close>\<close>

definition count_line :: "string \<Rightarrow> nat \<Rightarrow> string" where
  "count_line label n = ''- **'' @ label @ ''**: '' @ str_nat n @ '' agents'' @ nl"

definition accepted_entry :: "agent \<Rightarrow> string list" where
  "accepted_entry agent =
     [''### '' @ agent_name agent @ nl,
      ''- **Type**: '' @ agent_type agent @ nl,
      ''- **Priority**: '' @ priority agent @ nl,
      ''- **Purpose**: '' @ purpose agent @ nl @ nl]"

definition rejected_entry :: "agent \<Rightarrow> string list" where
  "rejected_entry agent =
     [''- **'' @ agent_name agent @ ''** ('' @ agent_type agent @ ''): '' @ purpose agent @ nl]"

definition skipped_entry :: "agent \<Rightarrow> string list" where
  "skipped_entry agent =
     [''### '' @ agent_name agent @ nl,
      ''- **Type**: '' @ agent_type agent @ nl,
      ''- **Priority**: '' @ priority agent @ nl,
      ''- **Purpose**: '' @ purpose agent @ nl,
      ''- **Rationale**: '' @ rationale agent @ nl @ nl]"

definition accepted_heading :: string where
  "accepted_heading = ''## Accepted Agents'' @ nl @ nl"

definition rejected_heading :: string where
  "rejected_heading = ''## Rejected Agents'' @ nl @ nl"

definition skipped_heading :: string where
  "skipped_heading = ''## Skipped Agents (Review Later)'' @ nl @ nl"

definition summary_header :: "world \<Rightarrow> state \<Rightarrow> path \<Rightarrow> string list" where
  "summary_header w st directory =
     [''# Agent Network Expansion Summary'' @ nl @ nl,
      ''**Analyzed Directory**: '' @ str_path (absolute w directory) @ nl,
      ''**Analysis Date**: '' @ now w @ nl,
      ''**Model Used**: '' @ model st @ nl @ nl,
      ''---'' @ nl @ nl,
      ''## Summary'' @ nl @ nl]"

definition summary_chunks :: "world \<Rightarrow> state \<Rightarrow> path \<Rightarrow> string list" where
  "summary_chunks w st directory =
     summary_header w st directory
     @ [count_line ''Accepted'' (length (accepted st)),
        count_line ''Rejected'' (length (rejected st)),
        count_line ''Skipped'' (length (skipped st)) @ nl]
     @ (if accepted st \<noteq> []
        then accepted_heading # concat (map accepted_entry (accepted st)) else [])
     @ (if rejected st \<noteq> []
        then rejected_heading # concat (map rejected_entry (rejected st)) @ [nl] else [])
     @ (if skipped st \<noteq> []
        then skipped_heading # concat (map skipped_entry (skipped st)) else [])"

definition summary_file :: path where
  "summary_file = path_div findings_dir ''analysis-summary.md''"

definition save_summary :: "world \<Rightarrow> path \<Rightarrow> state \<Rightarrow> path outcome" where
  "save_summary w directory st =
     (case write_file w findings_dir summary_file (summary_chunks w st directory) st of
        Raises e st' \<Rightarrow> Raises e st'
      | Returns u st' \<Rightarrow> Returns summary_file st')"

subsection \<open>\<^verbatim>\<open>run_iterative\<close>\<close>

text \<open>
  The review loop \<^verbatim>\<open>for i, agent in enumerate(suggestions, 1)\<close>, with \<open>i\<close> the index of
  the head of the remaining suggestions and \<open>n\<close> the length of the whole list. In the
  \<^verbatim>\<open>'yes'\<close> branch the path of the saved file is made relative to the working directory
  for the console message before the agent is appended. A decision that is none of the
  four strings falls through the \<^verbatim>\<open>if\<close> chain to the next iteration.
\<close>

fun review :: "world \<Rightarrow> nat \<Rightarrow> nat \<Rightarrow> agent list \<Rightarrow> state \<Rightarrow> unit outcome" where
  "review w n i [] st = Returns () st"
| "review w n i (agent # agents) st =
     (case get_user_decision (present_suggestion agent i n st) of
        Raises e st1 \<Rightarrow> Raises e st1
      | Returns decision st1 \<Rightarrow>
          if decision = ''yes'' then
            (case save_agent_prompt w agent (generate_system_prompt w agent) st1 of
               Raises e st2 \<Rightarrow> Raises e st2
             | Returns output_file st2 \<Rightarrow>
                 (case relative_to output_file (cwd w) of
                    None \<Rightarrow> Raises (ValueError (subpath_message w output_file (cwd w))) st2
                  | Some shown \<Rightarrow>
                      review w n (i + 1) agents (st2\<lparr>accepted := accepted st2 @ [agent]\<rparr>)))
          else if decision = ''no'' then
            review w n (i + 1) agents (st1\<lparr>rejected := rejected st1 @ [agent]\<rparr>)
          else if decision = ''skip'' then
            review w n (i + 1) agents (st1\<lparr>skipped := skipped st1 @ [agent]\<rparr>)
          else if decision = ''stop'' then Returns () st1
          else review w n (i + 1) agents st1)"

definition run_iterative :: "world \<Rightarrow> path \<Rightarrow> state \<Rightarrow> unit outcome" where
  "run_iterative w directory st =
     (let agent_files = discover_agents (disk w) directory;
          total = total_files agent_files
      in if total = 0 then Returns () st
         else
           (case build_context w directory agent_files of
              Inl e \<Rightarrow> Raises e st
            | Inr context \<Rightarrow>
                (case generate_agent_suggestions w context of
                   Inl e \<Rightarrow> Raises e st
                 | Inr suggestions \<Rightarrow>
                     if suggestions = [] then Returns () st
                     else
                       (case review w (length suggestions) 1 suggestions st of
                          Raises e st1 \<Rightarrow> Raises e st1
                        | Returns u st1 \<Rightarrow>
                            (case save_summary w directory st1 of
                               Raises e st2 \<Rightarrow> Raises e st2
                             | Returns summary st2 \<Rightarrow> Returns () st2)))))"

subsection \<open>\<^verbatim>\<open>main\<close> of the iterative script\<close>

text \<open>
  The parsed command line. \<^verbatim>\<open>sys.exit(n)\<close> ends \<open>main\<close> with \<open>SysExit n\<close>; otherwise \<open>main\<close>
  ends with its last statement, the call of the analyzer, and \<open>Ran\<close> holds what that call
  did. \<open>ollama_list w k\<close> is the result of the \<open>k\<close>-th call of \<^verbatim>\<open>ollama.list()\<close> (counted
  from 0), for the second call already mapped to the names of the models.
\<close>

record args =
  directory_arg :: string
  model_arg :: string
  prompts_arg :: bool

datatype main_result = SysExit nat | Ran "unit outcome"

text \<open>\<^verbatim>\<open>sub in s\<close> for strings.\<close>

fun contains :: "string \<Rightarrow> string \<Rightarrow> bool" where
  "contains sub [] = (sub = [])"
| "contains sub (c # cs) = (prefix sub (c # cs) \<or> contains sub cs)"

text \<open>
  The second \<^verbatim>\<open>try\<close> block of \<open>main\<close>: \<open>None\<close> when it calls \<^verbatim>\<open>sys.exit(1)\<close>, else the
  lines left on standard input. Any exception in it, also the \<^verbatim>\<open>EOFError\<close> of
  \<^verbatim>\<open>input\<close>, is caught and only prints a warning.
\<close>

definition check_model :: "world \<Rightarrow> string \<Rightarrow> string list \<Rightarrow> string list option" where
  "check_model w model_name lines =
     (case ollama_list w 1 of
        Inl e \<Rightarrow> Some lines
      | Inr model_names \<Rightarrow>
          if \<not> list_ex (\<lambda>name. contains model_name name) model_names then
            (case lines of
               [] \<Rightarrow> Some []
             | response # rest \<Rightarrow> if lower response \<noteq> ''y'' then None else Some rest)
          else Some lines)"

definition main_iterative :: "world \<Rightarrow> args \<Rightarrow> string list \<Rightarrow> main_result" where
  "main_iterative w a lines =
     (let directory = resolve w (Path (directory_arg a))
      in if \<not> exists_path w directory then SysExit 1
         else if \<not> is_dir w directory then SysExit 1
         else
           (case ollama_list w 0 of
              Inl e \<Rightarrow> SysExit 1
            | Inr listing \<Rightarrow>
                (case check_model w (model_arg a) lines of
                   None \<Rightarrow> SysExit 1
                 | Some lines' \<Rightarrow>
                     Ran (run_iterative w directory (init (model_arg a) lines')))))"

text \<open>The exit status of the process: that of \<^verbatim>\<open>sys.exit\<close>, 1 after an uncaught
  exception, 0 otherwise.\<close>

fun exit_status :: "main_result \<Rightarrow> nat" where
  "exit_status (SysExit n) = n"
| "exit_status (Ran (Raises e st)) = 1"
| "exit_status (Ran (Returns u st)) = 0"

section \<open>\<^verbatim>\<open>AgentNetworkAnalyzer\<close> (the batch script)\<close>

text \<open>\<open>discover_agents\<close>, \<open>read_file_safe\<close> and \<open>build_context\<close> are the same code as in
  the iterative script.\<close>

definition analyze_with_ollama :: "world \<Rightarrow> string \<Rightarrow> string" where
  "analyze_with_ollama w context =
     (case generate w (AnalysisRequest context) of
        Inr response \<Rightarrow> response
      | Inl e \<Rightarrow> ''Error during analysis: '' @ str_exc e)"

definition findings_file :: path where
  "findings_file = path_div findings_dir ''agent-network-analysis.md''"

definition save_findings :: "world \<Rightarrow> string \<Rightarrow> path \<Rightarrow> state \<Rightarrow> path outcome" where
  "save_findings w analysis directory st =
     (case write_file w findings_dir findings_file
             [''# Multi-Agent Network Analysis'' @ nl @ nl,
              ''**Analyzed Directory**: '' @ str_path (absolute w directory) @ nl,
              ''**Analysis Model**: '' @ model st @ nl,
              ''**Generated**: '' @ str_path (cwd w) @ nl @ nl,
              ''---'' @ nl @ nl,
              analysis] st of
        Raises e st' \<Rightarrow> Raises e st'
      | Returns u st' \<Rightarrow> Returns findings_file st')"

fun read_offer :: "string list \<Rightarrow> (bool \<times> string list) option" where
  "read_offer [] = None"
| "read_offer (line # lines) =
     (let choice = strip line
      in if choice = ''1'' then Some (True, lines)
         else if choice \<in> set [''2'', ''3''] then Some (False, lines)
         else read_offer lines)"

definition offer_system_prompts :: "state \<Rightarrow> bool outcome" where
  "offer_system_prompts st =
     (case read_offer (stdin st) of
        None \<Rightarrow> Raises (EOFError ''EOF when reading a line'') (st\<lparr>stdin := []\<rparr>)
      | Some (answer, lines) \<Rightarrow> Returns answer (st\<lparr>stdin := lines\<rparr>))"

text \<open>\<^verbatim>\<open>s.split(sep)\<close> for a separator of several characters (\<open>sep\<close> not empty): \<open>k\<close> counts
  the characters of a found separator still to be skipped, \<open>acc\<close> holds the current
  piece reversed.\<close>

fun split_go :: "string \<Rightarrow> nat \<Rightarrow> string \<Rightarrow> string \<Rightarrow> string list" where
  "split_go sep k acc [] = [rev acc]"
| "split_go sep (Suc k) acc (c # cs) = split_go sep k acc cs"
| "split_go sep 0 acc (c # cs) =
     (if prefix sep (c # cs) then rev acc # split_go sep (length sep - 1) [] cs
      else split_go sep 0 (c # acc) cs)"

definition split_str :: "string \<Rightarrow> string \<Rightarrow> string list" where
  "split_str sep s = split_go sep 0 [] s"

text \<open>The inner loop \<^verbatim>\<open>for line in lines[:3]\<close> that looks for the agent's name.\<close>

fun extract_name :: "string \<Rightarrow> string list \<Rightarrow> string" where
  "extract_name name [] = name"
| "extract_name name (line # lines) =
     (if contains ''Agent:'' line \<or> contains ''# Agent'' line then
        filter (\<lambda>c. isalnum c \<or> c = CHR ''-'')
          (replace_char CHR '' '' CHR ''-'' (lower (strip (last (split_char CHR '':'' line)))))
      else extract_name name lines)"

definition prompt_name :: "nat \<Rightarrow> string \<Rightarrow> string" where
  "prompt_name i agent_prompt =
     extract_name (''agent-'' @ str_nat i) (take 3 (split_char CHR 0x0A agent_prompt))"

definition is_orchestration :: "string \<Rightarrow> bool" where
  "is_orchestration agent_prompt =
     list_ex (\<lambda>word. contains word (lower agent_prompt))
       [''orchestrat'', ''coordinat'', ''rout'', ''priorit'']"

definition orchestration_dir :: path where
  "orchestration_dir = path_div system_prompts_dir ''orchestration''"

definition action_dir :: path where
  "action_dir = path_div system_prompts_dir ''action''"

text \<open>
  The loop \<^verbatim>\<open>for i, agent_prompt in enumerate(agent_prompts, 1)\<close> inside the \<^verbatim>\<open>try\<close>
  block of \<^verbatim>\<open>generate_system_prompts\<close>: an exception ends it (\<open>Raises\<close>), with the files
  written so far.
\<close>

fun save_prompts :: "world \<Rightarrow> nat \<Rightarrow> string list \<Rightarrow> state \<Rightarrow> unit outcome" where
  "save_prompts w i [] st = Returns () st"
| "save_prompts w i (piece # pieces) st =
     (let agent_prompt = strip piece
      in if agent_prompt = [] then save_prompts w (i + 1) pieces st
         else
           (let name = prompt_name i agent_prompt;
                target_dir = (if is_orchestration agent_prompt then orchestration_dir
                              else action_dir);
                output_file = path_div target_dir (name @ ''.md'')
            in case open_error w output_file of
                 Some e \<Rightarrow> Raises e st
               | None \<Rightarrow>
                   (let st1 = st\<lparr>written := written st @ [(output_file, agent_prompt)]\<rparr>
                    in case relative_to output_file findings_dir of
                         None \<Rightarrow>
                           Raises (ValueError (subpath_message w output_file findings_dir)) st1
                       | Some shown \<Rightarrow> save_prompts w (i + 1) pieces st1)))"

text \<open>The two \<^verbatim>\<open>mkdir\<close> calls stand before the \<^verbatim>\<open>try\<close>; the handler
  \<^verbatim>\<open>except Exception\<close> prints a message and the method returns.\<close>

definition generate_system_prompts :: "world \<Rightarrow> string \<Rightarrow> state \<Rightarrow> unit outcome" where
  "generate_system_prompts w analysis st =
     (case mkdir_error w orchestration_dir of
        Some e \<Rightarrow> Raises e st
      | None \<Rightarrow>
          (case mkdir_error w action_dir of
             Some e \<Rightarrow> Raises e st
           | None \<Rightarrow>
               (case generate w (AllPromptsRequest analysis) of
                  Inl e \<Rightarrow> Returns () st
                | Inr prompts_text \<Rightarrow>
                    (case save_prompts w 1 (split_str ''---AGENT---'' prompts_text) st of
                       Raises e st' \<Rightarrow> Returns () st'
                     | Returns u st' \<Rightarrow> Returns () st'))))"

definition run :: "world \<Rightarrow> path \<Rightarrow> bool \<Rightarrow> state \<Rightarrow> unit outcome" where
  "run w directory generate_prompts st =
     (let agent_files = discover_agents (disk w) directory;
          total = total_files agent_files
      in if total = 0 then Returns () st
         else
           (case build_context w directory agent_files of
              Inl e \<Rightarrow> Raises e st
            | Inr context \<Rightarrow>
                (let analysis = analyze_with_ollama w context
                 in case save_findings w analysis directory st of
                      Raises e st1 \<Rightarrow> Raises e st1
                    | Returns output_file st1 \<Rightarrow>
                        if generate_prompts then generate_system_prompts w analysis st1
                        else
                          (case offer_system_prompts st1 of
                             Raises e st2 \<Rightarrow> Raises e st2
                           | Returns wanted st2 \<Rightarrow>
                               if wanted then generate_system_prompts w analysis st2
                               else Returns () st2))))"

definition main_local :: "world \<Rightarrow> args \<Rightarrow> string list \<Rightarrow> main_result" where
  "main_local w a lines =
     (let directory = resolve w (Path (directory_arg a))
      in if \<not> exists_path w directory then SysExit 1
         else if \<not> is_dir w directory then SysExit 1
         else
           (case ollama_list w 0 of
              Inl e \<Rightarrow> SysExit 1
            | Inr listing \<Rightarrow>
                (case check_model w (model_arg a) lines of
                   None \<Rightarrow> SysExit 1
                 | Some lines' \<Rightarrow>
                     Ran (run w directory (prompts_arg a) (init (model_arg a) lines')))))"

section \<open>Reading the outputs\<close>

text \<open>
  What a reader of the output tree and of a summary file sees; none of these functions
  is part of the scripts. \<open>prompt_path kind name\<close> is the path
  \<^verbatim>\<open>findings/system-prompts/<kind>/<name>.md\<close>.
\<close>

definition prompt_path :: "string \<Rightarrow> string \<Rightarrow> path" where
  "prompt_path kind name =
     \<lparr>anchored = False, parts = [''findings'', ''system-prompts'', kind, name @ ''.md'']\<rparr>"

text \<open>
  The file-name form of an agent's name in the iterative script: lower case, blanks and
  underscores as hyphens, every other character that is not alphanumeric dropped. In
  the batch script the kind of a prompt is decided by four word stems in its lower-cased
  text, and its name is read from the first of its first three lines that holds
  \<^verbatim>\<open>Agent:\<close> or \<^verbatim>\<open># Agent\<close> (what follows the last colon, stripped, lower case, blanks as
  hyphens, other non-alphanumeric characters dropped), or is \<^verbatim>\<open>agent-<i>\<close>.
\<close>

definition file_name_form :: "string \<Rightarrow> string" where
  "file_name_form name =
     filter (\<lambda>c. isalnum c \<or> c = CHR ''-'')
       (map (\<lambda>c. if c = CHR '' '' \<or> c = CHR ''_'' then CHR ''-'' else lower_char c) name)"

definition kind_by_keywords :: "string \<Rightarrow> string" where
  "kind_by_keywords agent_prompt =
     (if contains ''orchestrat'' (lower agent_prompt) \<or> contains ''coordinat'' (lower agent_prompt)
         \<or> contains ''rout'' (lower agent_prompt) \<or> contains ''priorit'' (lower agent_prompt)
      then ''orchestration'' else ''action'')"

definition name_in_prompt :: "nat \<Rightarrow> string \<Rightarrow> string" where
  "name_in_prompt i agent_prompt =
     (case List.find (\<lambda>line. contains ''Agent:'' line \<or> contains ''# Agent'' line)
             (take 3 (split_char CHR 0x0A agent_prompt)) of
        None \<Rightarrow> ''agent-'' @ str_nat i
      | Some line \<Rightarrow>
          filter (\<lambda>c. isalnum c \<or> c = CHR ''-'')
            (map (\<lambda>c. if c = CHR '' '' then CHR ''-'' else lower_char c)
               (strip (last (split_char CHR '':'' line)))))"

text \<open>The files that the batch script is to write for the pieces of the model's answer:
  one for each piece that is not blank, numbered from 1 with the blank ones counted.\<close>

definition expected_prompt_files :: "string list \<Rightarrow> (path \<times> string) list" where
  "expected_prompt_files pieces =
     List.map_filter
       (\<lambda>(i, piece). if strip piece = [] then None
          else Some (prompt_path (kind_by_keywords (strip piece)) (name_in_prompt i (strip piece)),
                     strip piece))
       (List.enumerate 1 pieces)"









text \<open>A string without a line break, and an agent whose attributes shown in the summary
  are such strings.\<close>

definition one_line :: "string \<Rightarrow> bool" where
  "one_line s \<longleftrightarrow> CHR 0x0A \<notin> set s"


text \<open>The decisions that the reviewer gives, in order: the lines of standard input that
  \<^verbatim>\<open>get_user_decision\<close> accepts, each as the decision it returns for it.\<close>

definition user_decisions :: "string list \<Rightarrow> string list" where
  "user_decisions lines = List.map_filter choice_decision lines"


text \<open>\<^verbatim>\<open>enumerate(suggestions, 1)\<close> as the calls of \<^verbatim>\<open>present_suggestion\<close> it leads to
  when the loop runs through.\<close>

definition presentations :: "agent list \<Rightarrow> (agent \<times> nat \<times> nat) list" where
  "presentations suggestions =
     map (\<lambda>(i, agent). (agent, i, length suggestions)) (List.enumerate 1 suggestions)"

section \<open>The summary as a list of lines\<close>



section \<open>Worked examples\<close>

definition example_path :: path where
  "example_path = Path ''/srv/net/agents/big-agent.json''"

definition example_big_fs :: filesystem where
  "example_big_fs =
     \<lparr>walk = (\<lambda>d pattern. []), is_file = (\<lambda>p. True),
      stat_size = (\<lambda>p. Inr 100001), read_text = (\<lambda>p. Inr ''raw content'')\<rparr>"

text \<open>A directory \<^verbatim>\<open>/srv/net\<close> that holds the directory \<^verbatim>\<open>agents\<close> with the one file
  \<^verbatim>\<open>router-agent.json\<close>, and a file \<^verbatim>\<open>README.md\<close>.\<close>

definition example_dir :: path where
  "example_dir = Path ''/srv/net''"

definition example_fs :: filesystem where
  "example_fs =
     \<lparr>walk = (\<lambda>d pattern. if d = example_dir
                    then [[''agents''], [''agents'', ''router-agent.json''], [''README.md'']]
                    else []),
      is_file = (\<lambda>p. p \<noteq> below example_dir [''agents'']),
      stat_size = (\<lambda>p. Inr 120),
      read_text = (\<lambda>p. Inr ''{}'')\<rparr>"

definition example_file :: path where
  "example_file = below example_dir [''agents'', ''router-agent.json'']"

text \<open>\<^verbatim>\<open>str.upper\<close> and \<^verbatim>\<open>str.capitalize\<close> on strings of ASCII letters, and the text of
  the \<^verbatim>\<open>ValueError\<close> of \<^verbatim>\<open>relative_to\<close> for paths without quotes.\<close>

definition ascii_upper :: "string \<Rightarrow> string" where
  "ascii_upper s =
     map (\<lambda>c. case map_of (zip ''abcdefghijklmnopqrstuvwxyz'' ''ABCDEFGHIJKLMNOPQRSTUVWXYZ'') c of
                None \<Rightarrow> c | Some d \<Rightarrow> d) s"

definition ascii_capitalize :: "string \<Rightarrow> string" where
  "ascii_capitalize s = (case s of [] \<Rightarrow> [] | c # cs \<Rightarrow> ascii_upper [c] @ lower cs)"

definition example_message :: "path \<Rightarrow> path \<Rightarrow> string" where
  "example_message p other =
     [CHR 0x27] @ str_path p @ [CHR 0x27] @ '' is not in the subpath of '' @ [CHR 0x27]
     @ str_path other @ [CHR 0x27] @ '' OR one path is relative and the other is absolute.''"

text \<open>Three well-formed suggestions, and a world in which the backend answers the
  suggestions request with an array of the first two.\<close>

definition router :: agent where
  "router =
     \<lparr>agent_name = ''Task Router'', agent_type = ''orchestration'', priority = ''high'',
      purpose = ''Routes tasks'', rationale = ''No routing exists'',
      responsibilities = [''route''], interfaces = ''all agents'', agent_value = ''less waiting''\<rparr>"

definition auditor :: agent where
  "auditor =
     \<lparr>agent_name = ''log_auditor'', agent_type = ''action'', priority = ''low'',
      purpose = ''Audits logs'', rationale = ''Logs are unread'',
      responsibilities = [], interfaces = ''logger'', agent_value = ''fewer surprises''\<rparr>"


definition example_world :: world where
  "example_world =
     \<lparr>disk = example_fs,
      cwd_parts = [''srv'', ''net''],
      now = ''2024-05-01 12:00:00'',
      resolve = (\<lambda>p. p),
      exists_path = (\<lambda>p. True),
      is_dir = (\<lambda>p. True),
      ollama_list = (\<lambda>k. Inr [''qwen2.5:14b-instruct-q5_K_M'']),
      generate = (\<lambda>r. case r of
                        SuggestionsRequest c \<Rightarrow> Inr ''Sure: [two agents] ''
                      | SystemPromptRequest a \<Rightarrow> Inr ''You are an agent.''
                      | AnalysisRequest c \<Rightarrow> Inr ''Analysis''
                      | AllPromptsRequest c \<Rightarrow>
                          Inr ''# Agent: Task Router---AGENT---Writes reports''),
      json_loads = (\<lambda>s. if s = ''[two agents]'' then Inr [router, auditor]
                         else Inl (JSONDecodeError ''Expecting value'')),
      mkdir_error = (\<lambda>p. None),
      open_error = (\<lambda>p. None),
      str_upper = ascii_upper,
      str_capitalize = ascii_capitalize,
      subpath_message = example_message\<rparr>"

definition prose_world :: world where
  "prose_world = example_world\<lparr>generate := (\<lambda>r. Inr ''I suggest a router and an auditor.'')\<rparr>"

definition broken_json_world :: world where
  "broken_json_world = example_world\<lparr>generate := (\<lambda>r. Inr ''[{name: router},]'')\<rparr>"

definition offline_world :: world where
  "offline_world = example_world\<lparr>ollama_list := (\<lambda>k. Inl (ResponseError ''connection refused''))\<rparr>"

definition example_args :: args where
  "example_args =
     \<lparr>directory_arg = ''/srv/net'', model_arg = ''qwen2.5:14b-instruct-q5_K_M'',
      prompts_arg = False\<rparr>"

text \<open>The context built for the example directory, and a state in which the first
  suggestion has been rejected and the second skipped.\<close>

definition example_context :: string where
  "example_context =
     (case build_context example_world example_dir (discover_agents example_fs example_dir) of
        Inr context \<Rightarrow> context
      | Inl e \<Rightarrow> [])"




text \<open>A world in which the batch script's request for prompts is answered with the
  prompt of an action agent that writes routine reports.\<close>

definition routine_prompt :: string where
  "routine_prompt = ''# Agent: Report Writer'' @ nl @ ''An action agent. It writes routine reports.''"

definition routine_world :: world where
  "routine_world = example_world\<lparr>generate := (\<lambda>r. Inr routine_prompt)\<rparr>"


section \<open>Facts about the string functions\<close>

lemma below_ten_cases: "(k::nat) < 10 \<Longrightarrow> k \<in> {0, 1, 2, 3, 4, 5, 6, 7, 8, 9}"
  by auto

lemma digit_val_digit_char: "digit_val (digit_char d) = Some (d mod 10)"
proof -
  have "d mod 10 \<in> {0, 1, 2, 3, 4, 5, 6, 7, 8, 9}"
    by (rule below_ten_cases) simp
  then show ?thesis
    unfolding digit_val_def digit_char_def
    by (elim insertE emptyE) (simp_all add: upt_rec)
qed

lemma read_nat_acc_append:
  "read_nat_acc acc (s @ t) =
     (case read_nat_acc acc s of None \<Rightarrow> None | Some a \<Rightarrow> read_nat_acc a t)"
  by (induction s arbitrary: acc) (auto split: option.splits)

lemma read_nat_acc_str_nat: "read_nat_acc 0 (str_nat n) = Some n"
proof (induction n rule: str_nat.induct)
  case (1 n)
  show ?case
  proof (cases "n < 10")
    case True
    then show ?thesis
      by (subst str_nat.simps) (simp add: digit_val_digit_char)
  next
    case False
    with 1 have "read_nat_acc 0 (str_nat (n div 10)) = Some (n div 10)" by simp
    with False show ?thesis
      by (subst str_nat.simps) (simp add: read_nat_acc_append digit_val_digit_char)
  qed
qed

lemma str_nat_nonempty: "str_nat n \<noteq> []"
  by (subst str_nat.simps) simp

lemma read_nat_str_nat: "read_nat (str_nat n) = Some n"
  by (simp add: read_nat_def str_nat_nonempty read_nat_acc_str_nat)

section \<open>Claims about \<^verbatim>\<open>read_file_safe\<close>\<close>

text \<open>
  C5. For a file whose size exceeds \<open>max_size\<close> (by default 100000 bytes),
  \<open>read_file_safe\<close> returns the placeholder \<^verbatim>\<open>[File too large: <size> bytes]\<close>, where
  \<^verbatim>\<open><size>\<close> is the decimal numeral of the file's size in bytes, and the result does not
  depend on what reading the file would give: the raw content is never returned.
\<close>

theorem read_file_safe_oversized:
  assumes "stat_size fs file_path = Inr sz" and "int sz > max_size"
  shows "read_file_safe fs file_path max_size
           = Inr (Some (''[File too large: '' @ str_nat sz @ '' bytes]''))
         \<and> read_nat (str_nat sz) = Some sz
         \<and> read_file_safe (fs\<lparr>read_text := rd\<rparr>) file_path max_size
             = read_file_safe fs file_path max_size"
  using assms by (simp add: read_file_safe_def read_file_try_def read_nat_str_nat)

lemma str_nat_100001: "str_nat 100001 = ''100001''"
  by (simp add: str_nat.simps digit_char_def)

theorem read_file_safe_oversized_witness:
  "stat_size example_big_fs example_path = Inr 100001
   \<and> int 100001 > default_max_size
   \<and> read_file_safe example_big_fs example_path default_max_size
       = Inr (Some ''[File too large: 100001 bytes]'')
   \<and> read_file_safe example_big_fs example_path default_max_size \<noteq> Inr (Some ''raw content'')"
proof -
  have sz: "stat_size example_big_fs example_path = Inr 100001"
    by (simp add: example_big_fs_def)
  have big: "int 100001 > default_max_size"
    by (simp add: default_max_size_def)
  from read_file_safe_oversized [OF sz big]
  have "read_file_safe example_big_fs example_path default_max_size
          = Inr (Some (''[File too large: '' @ str_nat 100001 @ '' bytes]''))"
    by simp
  with sz big show ?thesis
    by (simp add: str_nat_100001)
qed

text \<open>
  C9. \<open>read_file_safe\<close> is total and always returns a string: whatever \<^verbatim>\<open>stat\<close> and
  \<^verbatim>\<open>read_text\<close> do (return or raise), the result is a returned string, never
  \<^verbatim>\<open>None\<close> and never an exception; when \<^verbatim>\<open>stat\<close> or \<^verbatim>\<open>read_text\<close> raises \<open>e\<close> the string is
  the placeholder \<^verbatim>\<open>[Error reading file: <e>]\<close>, and for an oversized file it is the
  size placeholder.
\<close>

theorem read_file_safe_total:
  "(\<exists>s. read_file_safe fs file_path max_size = Inr (Some s))
   \<and> (case read_file_try fs file_path max_size of
        Inl e \<Rightarrow> read_file_safe fs file_path max_size
                   = Inr (Some (''[Error reading file: '' @ str_exc e @ '']''))
      | Inr None \<Rightarrow> False
      | Inr (Some s) \<Rightarrow> read_file_safe fs file_path max_size = Inr (Some s))"
  by (auto simp: read_file_safe_def read_file_try_def split: sum.splits option.splits)


section \<open>Claims about \<^verbatim>\<open>discover_agents\<close>\<close>

lemma all_files_bucket_append:
  "set (all_files (bucket_append key p agent_files)) \<subseteq> insert p (set (all_files agent_files))"
  by (induction agent_files) (auto simp: all_files_def bucket_append_def split: if_splits)

lemma all_files_add_file:
  assumes "q \<in> set (all_files (add_file fs p agent_files))"
  shows "q \<in> set (all_files agent_files) \<or> (q = p \<and> is_file fs p)"
proof (cases "is_file fs p")
  case True
  with assms all_files_bucket_append show ?thesis
    by (fastforce simp: add_file_def Let_def split: if_splits)
next
  case False
  with assms show ?thesis by (simp add: add_file_def)
qed

lemma all_files_fold_add_file:
  "q \<in> set (all_files (fold (add_file fs) ps agent_files)) \<Longrightarrow>
   q \<in> set (all_files agent_files) \<or> (q \<in> set ps \<and> is_file fs q)"
proof (induction ps arbitrary: agent_files)
  case Nil
  then show ?case by simp
next
  case (Cons p ps)
  from Cons.prems have "q \<in> set (all_files (fold (add_file fs) ps (add_file fs p agent_files)))"
    by simp
  from Cons.IH [OF this] show ?case
    using all_files_add_file [of q fs p agent_files] by auto
qed

lemma all_files_fold_patterns:
  "q \<in> set (all_files (fold (\<lambda>pattern af. fold (add_file fs) (rglob fs d pattern) af) pats agent_files)) \<Longrightarrow>
   q \<in> set (all_files agent_files)
   \<or> (is_file fs q \<and> (\<exists>pattern \<in> set pats. q \<in> set (rglob fs d pattern)))"
proof (induction pats arbitrary: agent_files)
  case Nil
  then show ?case by simp
next
  case (Cons pat pats)
  from Cons.prems
  have "q \<in> set (all_files (fold (\<lambda>pattern af. fold (add_file fs) (rglob fs d pattern) af) pats
            (fold (add_file fs) (rglob fs d pat) agent_files)))"
    by simp
  from Cons.IH [OF this] show ?case
    using all_files_fold_add_file [of q fs "rglob fs d pat" agent_files] by auto
qed

lemma rglob_matches_nonempty:
  "pattern \<in> set patterns \<Longrightarrow> \<not> rglob_matches pattern []"
  by (auto simp: patterns_def rglob_matches_def)

lemma discovered_file:
  assumes "q \<in> set (all_files (discover_agents fs d))"
  shows "is_file fs q \<and> (\<exists>pattern \<in> set patterns. q \<in> set (rglob fs d pattern))"
  using all_files_fold_patterns [of q fs d patterns empty_buckets] assms
  by (simp add: discover_agents_def all_files_def empty_buckets_def)

text \<open>
  C7. Every path in every bucket of the result of \<open>discover_agents\<close> is a file
  (\<^verbatim>\<open>is_file()\<close> holds), lies strictly below the searched directory, and is, for at
  least one of the nine declared patterns, an entry of the traversal for that pattern
  whose relative path matches it in the sense of \<^verbatim>\<open>rglob\<close>; so no non-matching file
  appears in any bucket.
\<close>

theorem discover_agents_only_matching:
  "\<forall>(ext, files) \<in> set (discover_agents fs directory). \<forall>file_path \<in> set files.
     is_file fs file_path
     \<and> anchored file_path = anchored directory
     \<and> strict_prefix (parts directory) (parts file_path)
     \<and> (\<exists>pattern \<in> set [''*agent*.json'', ''*agent*.yaml'', ''*agent*.yml'', ''*.agent.*'',
                 ''*prompt*.md'', ''*system*.md'', ''agents/**/*'', ''prompts/**/*'',
                 ''.claude/**/*''].
          \<exists>rel \<in> set (walk fs directory pattern).
            file_path = below directory rel \<and> rglob_matches pattern rel)"
proof (intro ballI, clarify)
  fix ext files file_path
  assume "(ext, files) \<in> set (discover_agents fs directory)" and "file_path \<in> set files"
  then have "file_path \<in> set (all_files (discover_agents fs directory))"
    by (force simp: all_files_def)
  from discovered_file [OF this] obtain pattern where
    f: "is_file fs file_path" and p: "pattern \<in> set patterns"
    and r: "file_path \<in> set (rglob fs directory pattern)"
    by blast
  from r obtain rel where rel: "rel \<in> set (walk fs directory pattern)" "rglob_matches pattern rel"
    "file_path = below directory rel"
    by (auto simp: rglob_def)
  from p rel(2) rglob_matches_nonempty have "rel \<noteq> []" by blast
  with rel(3) have "anchored file_path = anchored directory"
    "strict_prefix (parts directory) (parts file_path)"
    by (simp_all add: below_def strict_prefix_def)
  moreover from p have "pattern \<in> set [''*agent*.json'', ''*agent*.yaml'', ''*agent*.yml'', ''*.agent.*'',
                 ''*prompt*.md'', ''*system*.md'', ''agents/**/*'', ''prompts/**/*'',
                 ''.claude/**/*'']"
    by (simp add: patterns_def)
  ultimately show "is_file fs file_path
     \<and> anchored file_path = anchored directory
     \<and> strict_prefix (parts directory) (parts file_path)
     \<and> (\<exists>pattern \<in> set [''*agent*.json'', ''*agent*.yaml'', ''*agent*.yml'', ''*.agent.*'',
                 ''*prompt*.md'', ''*system*.md'', ''agents/**/*'', ''prompts/**/*'',
                 ''.claude/**/*''].
          \<exists>rel \<in> set (walk fs directory pattern).
            file_path = below directory rel \<and> rglob_matches pattern rel)"
    using f rel by blast
qed

lemma example_dir_eq: "example_dir = \<lparr>anchored = True, parts = [''srv'', ''net'']\<rparr>"
  by (simp add: example_dir_def Path_def path_parts_def)

lemma example_discovery:
  "discover_agents example_fs example_dir
     = [(''json'', [example_file, example_file]), (''yaml'', []), (''md'', []), (''txt'', []),
        (''other'', [])]"
  by code_simp

lemma example_file_eq:
  "example_file = \<lparr>anchored = True, parts = [''srv'', ''net'', ''agents'', ''router-agent.json'']\<rparr>"
  by code_simp

theorem discover_agents_only_matching_witness:
  "(''json'', [example_file, example_file]) \<in> set (discover_agents example_fs example_dir)
   \<and> is_file example_fs example_file
   \<and> strict_prefix (parts example_dir) (parts example_file)
   \<and> (\<exists>pattern \<in> set patterns. \<exists>rel \<in> set (walk example_fs example_dir pattern).
         example_file = below example_dir rel \<and> rglob_matches pattern rel)"
proof -
  have m: "(''json'', [example_file, example_file]) \<in> set (discover_agents example_fs example_dir)"
    by (simp add: example_discovery)
  have e: "example_file \<in> set [example_file, example_file]" by simp
  from discover_agents_only_matching [of example_fs example_dir] m e
  have "is_file example_fs example_file
     \<and> anchored example_file = anchored example_dir
     \<and> strict_prefix (parts example_dir) (parts example_file)
     \<and> (\<exists>pattern \<in> set [''*agent*.json'', ''*agent*.yaml'', ''*agent*.yml'', ''*.agent.*'',
                 ''*prompt*.md'', ''*system*.md'', ''agents/**/*'', ''prompts/**/*'',
                 ''.claude/**/*''].
          \<exists>rel \<in> set (walk example_fs example_dir pattern).
            example_file = below example_dir rel \<and> rglob_matches pattern rel)"
    by fast
  with m show ?thesis
    unfolding patterns_def by blast
qed

text \<open>
  C10. \<open>discover_agents\<close> does not deduplicate across patterns: there is a directory,
  whose traversal for each pattern lists every entry once, with a file that \<^verbatim>\<open>rglob\<close> yields for two
  different declared patterns; that file occurs twice in the returned buckets, and the
  total file count (2) exceeds the number of distinct files found (1).
\<close>

theorem discover_agents_duplicates:
  "\<exists>fs directory file_path.
     (\<forall>pattern. distinct (walk fs directory pattern))
     \<and> file_path \<in> set (rglob fs directory ''*agent*.json'')
     \<and> file_path \<in> set (rglob fs directory ''agents/**/*'')
     \<and> count_list (all_files (discover_agents fs directory)) file_path = 2
     \<and> total_files (discover_agents fs directory) = 2
     \<and> card (set (all_files (discover_agents fs directory))) = 1"
proof (intro exI conjI)
  show "\<forall>pattern. distinct (walk example_fs example_dir pattern)"
    by (simp add: example_fs_def)
  show "example_file \<in> set (rglob example_fs example_dir ''*agent*.json'')" by code_simp
  show "example_file \<in> set (rglob example_fs example_dir ''agents/**/*'')" by code_simp
  show "count_list (all_files (discover_agents example_fs example_dir)) example_file = 2"
    by (simp add: example_discovery all_files_def)
  show "total_files (discover_agents example_fs example_dir) = 2"
    by (simp add: example_discovery total_files_def)
  show "card (set (all_files (discover_agents example_fs example_dir))) = 1"
    by (simp add: example_discovery all_files_def card_set)
qed


section \<open>Claims about \<^verbatim>\<open>generate_agent_suggestions\<close>\<close>

lemma find_from_absent: "0 \<le> i \<Longrightarrow> (find_from i c s < 0) = (c \<notin> set s)"
  by (induction s arbitrary: i) auto

lemma find_char_absent: "(find_char c s < 0) = (c \<notin> set s)"
  by (simp add: find_char_def find_from_absent)

lemma rfind_char_absent: "c \<notin> set s \<Longrightarrow> rfind_char c s = -1"
  using find_from_absent [of 0 c "rev s"] by (simp add: rfind_char_def Let_def)

text \<open>
  C4. When the model has answered the suggestions request, \<open>generate_agent_suggestions\<close>
  returns a list and raises nothing; when the answer holds no bracketed array (no \<^verbatim>\<open>[\<close>,
  no \<^verbatim>\<open>]\<close>, or no \<^verbatim>\<open>]\<close> after the first \<^verbatim>\<open>[\<close>), or when \<^verbatim>\<open>json.loads\<close> raises
  \<^verbatim>\<open>JSONDecodeError\<close> on the text from the first \<^verbatim>\<open>[\<close> to the last \<^verbatim>\<open>]\<close>, the list returned
  is empty. The list is empty as well when the request itself raises anything but a
  \<^verbatim>\<open>JSONDecodeError\<close>.
\<close>

theorem generate_agent_suggestions_parse_failure:
  "(\<forall>response. generate w (SuggestionsRequest context) = Inr response
       \<longrightarrow> (\<exists>suggestions. generate_agent_suggestions w context = Inr suggestions))
    \<and> (\<forall>response response_text.
          generate w (SuggestionsRequest context) = Inr response
          \<and> response_text = strip response
          \<and> (CHR ''['' \<notin> set response_text
              \<or> CHR '']'' \<notin> set response_text
              \<or> rfind_char CHR '']'' response_text + 1 \<le> find_char CHR ''['' response_text
              \<or> (\<exists>m. json_loads w (slice (find_char CHR ''['' response_text)
                                         (rfind_char CHR '']'' response_text + 1) response_text)
                         = Inl (JSONDecodeError m)))
          \<longrightarrow> generate_agent_suggestions w context = Inr [])
    \<and> (\<forall>e. generate w (SuggestionsRequest context) = Inl e \<and> (\<forall>m. e \<noteq> JSONDecodeError m)
          \<longrightarrow> generate_agent_suggestions w context = Inr [])"
proof (intro conjI allI impI)
  fix response
  assume "generate w (SuggestionsRequest context) = Inr response"
  then show "\<exists>suggestions. generate_agent_suggestions w context = Inr suggestions"
    by (simp add: generate_agent_suggestions_def split: sum.splits py_error.splits)
next
  fix response response_text
  assume a: "generate w (SuggestionsRequest context) = Inr response
          \<and> response_text = strip response
          \<and> (CHR ''['' \<notin> set response_text
              \<or> CHR '']'' \<notin> set response_text
              \<or> rfind_char CHR '']'' response_text + 1 \<le> find_char CHR ''['' response_text
              \<or> (\<exists>m. json_loads w (slice (find_char CHR ''['' response_text)
                                         (rfind_char CHR '']'' response_text + 1) response_text)
                         = Inl (JSONDecodeError m)))"
  then have g: "generate w (SuggestionsRequest context) = Inr response"
    and t: "response_text = strip response" by simp_all
  let ?start = "find_char CHR ''['' response_text"
  let ?end = "rfind_char CHR '']'' response_text + 1"
  from a consider (nofound) "\<not> (?start \<ge> 0 \<and> ?end > ?start)"
    | (bad) m where "?start \<ge> 0 \<and> ?end > ?start" "json_loads w (slice ?start ?end response_text) = Inl (JSONDecodeError m)"
    using find_char_absent [of "CHR ''[''" response_text] rfind_char_absent [of "CHR '']''" response_text]
    by (cases "?start \<ge> 0 \<and> ?end > ?start") auto
  then show "generate_agent_suggestions w context = Inr []"
  proof cases
    case nofound
    with g t show ?thesis
      by (auto simp: generate_agent_suggestions_def parse_suggestions_def Let_def)
  next
    case bad
    with g t show ?thesis
      by (simp add: generate_agent_suggestions_def parse_suggestions_def Let_def)
  qed
next
  fix e
  assume "generate w (SuggestionsRequest context) = Inl e \<and> (\<forall>m. e \<noteq> JSONDecodeError m)"
  then show "generate_agent_suggestions w context = Inr []"
    by (cases e) (simp_all add: generate_agent_suggestions_def)
qed

theorem generate_agent_suggestions_parse_failure_witness:
  "generate prose_world (SuggestionsRequest ''ctx'') = Inr ''I suggest a router and an auditor.''
   \<and> CHR ''['' \<notin> set (strip ''I suggest a router and an auditor.'')
   \<and> generate_agent_suggestions prose_world ''ctx'' = Inr []
   \<and> generate broken_json_world (SuggestionsRequest ''ctx'') = Inr ''[{name: router},]''
   \<and> json_loads broken_json_world ''[{name: router},]'' = Inl (JSONDecodeError ''Expecting value'')
   \<and> generate_agent_suggestions broken_json_world ''ctx'' = Inr []"
proof -
  have g1: "generate prose_world (SuggestionsRequest ''ctx'') = Inr ''I suggest a router and an auditor.''"
    by (simp add: prose_world_def)
  have n1: "CHR ''['' \<notin> set (strip ''I suggest a router and an auditor.'')"
    by code_simp
  have g2: "generate broken_json_world (SuggestionsRequest ''ctx'') = Inr ''[{name: router},]''"
    by (simp add: broken_json_world_def)
  have t2: "strip ''[{name: router},]'' = ''[{name: router},]''"
    by code_simp
  have s2: "slice (find_char CHR ''['' ''[{name: router},]'')
              (rfind_char CHR '']'' ''[{name: router},]'' + 1) ''[{name: router},]''
            = ''[{name: router},]''"
    by code_simp
  have j2: "json_loads broken_json_world ''[{name: router},]'' = Inl (JSONDecodeError ''Expecting value'')"
    by (simp add: broken_json_world_def example_world_def)
  from generate_agent_suggestions_parse_failure [of prose_world "''ctx''"] g1 n1
  have r1: "generate_agent_suggestions prose_world ''ctx'' = Inr []"
    by blast
  from generate_agent_suggestions_parse_failure [of broken_json_world "''ctx''"] g2 t2 s2 j2
  have r2: "generate_agent_suggestions broken_json_world ''ctx'' = Inr []"
    by metis
  from g1 n1 r1 g2 j2 r2 show ?thesis by blast
qed

text \<open>The path that the claim does not speak of: a \<^verbatim>\<open>JSONDecodeError\<close> raised by the
  request itself leaves the method as an \<^verbatim>\<open>UnboundLocalError\<close>.\<close>

lemma request_decode_error_escapes:
  "generate w (SuggestionsRequest context) = Inl (JSONDecodeError m) \<Longrightarrow>
   \<exists>text. generate_agent_suggestions w context = Inl (UnboundLocalError text)"
  by (simp add: generate_agent_suggestions_def)

section \<open>Claims about the entry points\<close>

text \<open>
  C6. If the first call of the backend's list operation fails (raises), then \<open>main\<close> of
  either script ends by \<^verbatim>\<open>sys.exit(1)\<close>: the exit status is not zero and the analyzer is
  never run.
\<close>

theorem unreachable_backend_is_fatal:
  assumes "ollama_list w 0 = Inl e"
  shows "main_iterative w a lines = SysExit 1 \<and> main_local w a lines = SysExit 1
         \<and> exit_status (main_iterative w a lines) \<noteq> 0
         \<and> exit_status (main_local w a lines) \<noteq> 0
         \<and> (\<forall>r. main_iterative w a lines \<noteq> Ran r)
         \<and> (\<forall>r. main_local w a lines \<noteq> Ran r)"
  using assms by (simp add: main_iterative_def main_local_def Let_def)

theorem unreachable_backend_is_fatal_witness:
  "ollama_list offline_world 0 = Inl (ResponseError ''connection refused'')
   \<and> main_iterative offline_world example_args [''y''] = SysExit 1
   \<and> main_local offline_world example_args [''1''] = SysExit 1"
proof -
  have l: "ollama_list offline_world 0 = Inl (ResponseError ''connection refused'')"
    by (simp add: offline_world_def)
  from unreachable_backend_is_fatal [OF l, of example_args "[''y'']"]
    unreachable_backend_is_fatal [OF l, of example_args "[''1'']"] l
  show ?thesis by simp
qed




section \<open>Claims about the generated prompt files\<close>

lemma split_char_absent: "sep \<notin> set s \<Longrightarrow> split_char sep s = [s]"
  by (induction s) auto

lemma path_div_name:
  assumes "CHR ''/'' \<notin> set name"
  shows "path_div d (name @ ''.md'') = d\<lparr>parts := parts d @ [name @ ''.md'']\<rparr>"
proof -
  from assms have "CHR ''/'' \<notin> set (name @ ''.md'')" by simp
  then have "split_char CHR ''/'' (name @ ''.md'') = [name @ ''.md'']"
    by (rule split_char_absent)
  moreover have "name @ ''.md'' \<noteq> ''.''"
    by (cases name) auto
  moreover from assms have "hd (name @ ''.md'') \<noteq> CHR ''/''"
    by (cases name) auto
  ultimately show ?thesis
    by (simp add: path_div_def path_parts_def)
qed

lemma orchestration_dir_eq:
  "orchestration_dir = \<lparr>anchored = False, parts = [''findings'', ''system-prompts'', ''orchestration'']\<rparr>"
  by code_simp

lemma action_dir_eq:
  "action_dir = \<lparr>anchored = False, parts = [''findings'', ''system-prompts'', ''action'']\<rparr>"
  by code_simp

lemma isalnum_not_slash: "isalnum c \<Longrightarrow> c \<noteq> CHR ''/''"
  by (auto simp: isalnum_def upper_letters_def lower_letters_def other_alnum_def)

lemma prompt_filename_no_slash: "CHR ''/'' \<notin> set (prompt_filename agent)"
  by (auto simp: prompt_filename_def Let_def dest: isalnum_not_slash)

lemma digit_char_not_slash: "digit_char d \<noteq> CHR ''/''"
proof -
  have "d mod 10 \<in> {0, 1, 2, 3, 4, 5, 6, 7, 8, 9}"
    by (rule below_ten_cases) simp
  then show ?thesis
    unfolding digit_char_def by (elim insertE emptyE) simp_all
qed

lemma str_nat_no_slash: "CHR ''/'' \<notin> set (str_nat n)"
proof (induction n rule: str_nat.induct)
  case (1 n)
  show ?case
  proof (cases "n < 10")
    case True
    then show ?thesis
      using digit_char_not_slash [of n] by (subst str_nat.simps) auto
  next
    case False
    with 1 show ?thesis
      using digit_char_not_slash [of "n mod 10"] by (subst str_nat.simps) auto
  qed
qed

lemma extract_name_no_slash:
  "CHR ''/'' \<notin> set name \<Longrightarrow> CHR ''/'' \<notin> set (extract_name name ls)"
  by (induction ls) (auto dest: isalnum_not_slash)

lemma prompt_name_no_slash: "CHR ''/'' \<notin> set (prompt_name i agent_prompt)"
  unfolding prompt_name_def
  by (rule extract_name_no_slash) (simp add: str_nat_no_slash)

lemma prompt_target_dir_eq:
  "prompt_target_dir agent =
     \<lparr>anchored = False,
      parts = [''findings'', ''system-prompts'',
               if agent_type agent = ''orchestration'' then ''orchestration'' else ''action'']\<rparr>"
  using orchestration_dir_eq action_dir_eq
  by (simp add: prompt_target_dir_def orchestration_dir_def action_dir_def)


lemma lower_char_blank [simp]: "lower_char c = CHR '' '' \<longleftrightarrow> c = CHR '' ''"
  by (auto simp: lower_char_def upper_letters_def lower_letters_def split: option.splits if_splits)

lemma lower_char_underscore [simp]: "lower_char c = CHR ''_'' \<longleftrightarrow> c = CHR ''_''"
  by (auto simp: lower_char_def upper_letters_def lower_letters_def split: option.splits if_splits)

lemma prompt_filename_form: "prompt_filename agent = file_name_form (agent_name agent)"
proof -
  have "replace_char CHR ''_'' CHR ''-'' (replace_char CHR '' '' CHR ''-'' (lower s))
      = map (\<lambda>c. if c = CHR '' '' \<or> c = CHR ''_'' then CHR ''-'' else lower_char c) s" for s
    by (induction s) (auto simp: replace_char_def lower_def)
  then show ?thesis
    by (simp add: prompt_filename_def file_name_form_def Let_def)
qed

lemma extract_name_find:
  "extract_name name ls =
     (case List.find (\<lambda>line. contains ''Agent:'' line \<or> contains ''# Agent'' line) ls of
        None \<Rightarrow> name
      | Some line \<Rightarrow>
          filter (\<lambda>c. isalnum c \<or> c = CHR ''-'')
            (map (\<lambda>c. if c = CHR '' '' then CHR ''-'' else lower_char c)
               (strip (last (split_char CHR '':'' line)))))"
proof -
  have r: "replace_char CHR '' '' CHR ''-'' (lower s)
      = map (\<lambda>c. if c = CHR '' '' then CHR ''-'' else lower_char c) s" for s
    by (induction s) (auto simp: replace_char_def lower_def)
  show ?thesis
    by (induction ls) (simp_all add: r)
qed

lemma prompt_name_in_prompt: "prompt_name i agent_prompt = name_in_prompt i agent_prompt"
  by (simp add: prompt_name_def name_in_prompt_def extract_name_find split: option.splits)

lemma is_orchestration_kind:
  "(if is_orchestration agent_prompt then ''orchestration'' else ''action'')
     = kind_by_keywords agent_prompt"
  by (simp add: is_orchestration_def kind_by_keywords_def)

lemma name_in_prompt_no_slash: "CHR ''/'' \<notin> set (name_in_prompt i agent_prompt)"
  using prompt_name_no_slash [of i agent_prompt] by (simp add: prompt_name_in_prompt)

lemma file_name_form_no_slash: "CHR ''/'' \<notin> set (file_name_form name)"
  by (auto simp: file_name_form_def dest: isalnum_not_slash)

lemma prompt_path_relative: "relative_to (prompt_path kind name) findings_dir \<noteq> None"
  by (simp add: relative_to_def prompt_path_def findings_dir_def Path_def path_parts_def)

lemma prompt_output_file:
  "path_div (if is_orchestration agent_prompt then orchestration_dir else action_dir)
     (prompt_name i agent_prompt @ ''.md'')
   = prompt_path (kind_by_keywords agent_prompt) (name_in_prompt i agent_prompt)"
  unfolding is_orchestration_kind [symmetric] prompt_name_in_prompt [symmetric]
  by (simp add: path_div_name [OF prompt_name_no_slash] orchestration_dir_eq action_dir_eq
      prompt_path_def)

text \<open>The files expected for the pieces from index \<open>i\<close> on.\<close>

lemma expected_from_Cons:
  "List.map_filter
       (\<lambda>(i, piece). if strip piece = [] then None
          else Some (prompt_path (kind_by_keywords (strip piece)) (name_in_prompt i (strip piece)),
                     strip piece))
       (List.enumerate i (piece # pieces))
   = (if strip piece = [] then []
      else [(prompt_path (kind_by_keywords (strip piece)) (name_in_prompt i (strip piece)),
             strip piece)])
     @ List.map_filter
       (\<lambda>(i, piece). if strip piece = [] then None
          else Some (prompt_path (kind_by_keywords (strip piece)) (name_in_prompt i (strip piece)),
                     strip piece))
       (List.enumerate (Suc i) pieces)"
  by (simp add: enumerate_simps map_filter_simps)

lemma save_prompts_prefix:
  "\<exists>k. written (final_state (save_prompts w i pieces st))
        = written st @ take k (List.map_filter
       (\<lambda>(i, piece). if strip piece = [] then None
          else Some (prompt_path (kind_by_keywords (strip piece)) (name_in_prompt i (strip piece)),
                     strip piece))
       (List.enumerate i pieces))"
proof (induction pieces arbitrary: i st)
  case Nil
  then show ?case by simp
next
  case (Cons piece pieces)
  let ?E = "\<lambda>i pieces. List.map_filter
       (\<lambda>(i, piece). if strip piece = [] then None
          else Some (prompt_path (kind_by_keywords (strip piece)) (name_in_prompt i (strip piece)),
                     strip piece))
       (List.enumerate i pieces)"
  show ?case
  proof (cases "strip piece = []")
    case True
    from Cons.IH [of "Suc i" st] obtain k where
      "written (final_state (save_prompts w (Suc i) pieces st)) = written st @ take k (?E (Suc i) pieces)"
      by blast
    with True show ?thesis
      unfolding expected_from_Cons by (intro exI [of _ k]) simp
  next
    case False
    let ?file = "prompt_path (kind_by_keywords (strip piece)) (name_in_prompt i (strip piece))"
    let ?st1 = "st\<lparr>written := written st @ [(?file, strip piece)]\<rparr>"
    show ?thesis
    proof (cases "open_error w ?file")
      case (Some e)
      with False have "save_prompts w i (piece # pieces) st = Raises e st"
        by (simp add: Let_def prompt_output_file)
      then show ?thesis
        by (intro exI [of _ 0]) simp
    next
      case None
      from prompt_path_relative obtain shown where
        rel: "relative_to ?file findings_dir = Some shown" by blast
      with None False
      have step: "save_prompts w i (piece # pieces) st = save_prompts w (Suc i) pieces ?st1"
        by (simp add: Let_def prompt_output_file)
      from Cons.IH [of "Suc i" ?st1] obtain k where
        "written (final_state (save_prompts w (Suc i) pieces ?st1))
           = written ?st1 @ take k (?E (Suc i) pieces)"
        by blast
      with False show ?thesis
        unfolding step expected_from_Cons by (intro exI [of _ "Suc k"]) simp
    qed
  qed
qed

lemma save_prompts_all:
  assumes "\<forall>p. open_error w p = None"
  shows "\<exists>st'. save_prompts w i pieces st = Returns () st'
        \<and> written st' = written st @ List.map_filter
       (\<lambda>(i, piece). if strip piece = [] then None
          else Some (prompt_path (kind_by_keywords (strip piece)) (name_in_prompt i (strip piece)),
                     strip piece))
       (List.enumerate i pieces)"
proof (induction pieces arbitrary: i st)
  case Nil
  then show ?case by (simp add: map_filter_simps)
next
  case (Cons piece pieces)
  let ?E = "\<lambda>i pieces. List.map_filter
       (\<lambda>(i, piece). if strip piece = [] then None
          else Some (prompt_path (kind_by_keywords (strip piece)) (name_in_prompt i (strip piece)),
                     strip piece))
       (List.enumerate i pieces)"
  show ?case
  proof (cases "strip piece = []")
    case True
    from Cons.IH [of "Suc i" st] obtain st' where
      "save_prompts w (Suc i) pieces st = Returns () st'"
      "written st' = written st @ ?E (Suc i) pieces"
      by blast
    with True show ?thesis
      unfolding expected_from_Cons by simp
  next
    case False
    let ?file = "prompt_path (kind_by_keywords (strip piece)) (name_in_prompt i (strip piece))"
    let ?st1 = "st\<lparr>written := written st @ [(?file, strip piece)]\<rparr>"
    from assms have None: "open_error w ?file = None" by simp
    from prompt_path_relative obtain shown where
      rel: "relative_to ?file findings_dir = Some shown" by blast
    with None False
    have step: "save_prompts w i (piece # pieces) st = save_prompts w (Suc i) pieces ?st1"
      by (simp add: Let_def prompt_output_file)
    from Cons.IH [of "Suc i" ?st1] obtain st' where
      "save_prompts w (Suc i) pieces ?st1 = Returns () st'"
      "written st' = written ?st1 @ ?E (Suc i) pieces"
      by blast
    with False show ?thesis
      unfolding step expected_from_Cons by simp
  qed
qed

lemma generate_system_prompts_files:
  assumes "generate w (AllPromptsRequest analysis) = Inr prompts_text"
  shows "\<exists>k. written (final_state (generate_system_prompts w analysis st))
          = written st @ take k (expected_prompt_files (split_str ''---AGENT---'' prompts_text))"
proof (cases "mkdir_error w orchestration_dir = None \<and> mkdir_error w action_dir = None")
  case False
  then have "written (final_state (generate_system_prompts w analysis st)) = written st"
    by (auto simp: generate_system_prompts_def split: option.splits)
  then show ?thesis by (intro exI [of _ 0]) simp
next
  case True
  let ?loop = "save_prompts w 1 (split_str ''---AGENT---'' prompts_text) st"
  from True assms have "final_state (generate_system_prompts w analysis st) = final_state ?loop"
    by (cases ?loop) (simp_all add: generate_system_prompts_def)
  with save_prompts_prefix [of w 1 "split_str ''---AGENT---'' prompts_text" st]
  show ?thesis by (simp add: expected_prompt_files_def)
qed

lemma generate_system_prompts_all:
  assumes "generate w (AllPromptsRequest analysis) = Inr prompts_text"
    and "\<forall>p. mkdir_error w p = None" and "\<forall>p. open_error w p = None"
  shows "written (final_state (generate_system_prompts w analysis st))
          = written st @ expected_prompt_files (split_str ''---AGENT---'' prompts_text)"
proof -
  from save_prompts_all [OF assms(3), of 1 "split_str ''---AGENT---'' prompts_text" st]
  obtain st' where "save_prompts w 1 (split_str ''---AGENT---'' prompts_text) st = Returns () st'"
    and "written st' = written st @ expected_prompt_files (split_str ''---AGENT---'' prompts_text)"
    by (auto simp: expected_prompt_files_def)
  with assms(1,2) show ?thesis
    by (simp add: generate_system_prompts_def)
qed

lemma generate_system_prompts_no_answer:
  assumes "generate w (AllPromptsRequest analysis) = Inl e"
  shows "written (final_state (generate_system_prompts w analysis st)) = written st"
  using assms by (auto simp: generate_system_prompts_def split: option.splits)

lemma save_agent_prompt_file:
  "written (final_state (save_agent_prompt w agent content st)) = written st
   \<or> (\<exists>text. written (final_state (save_agent_prompt w agent content st))
        = written st @ [(prompt_path (if agent_type agent = ''orchestration''
                                      then ''orchestration'' else ''action'')
                           (file_name_form (agent_name agent)), text)])"
  by (simp add: save_agent_prompt_def write_file_def Let_def prompt_target_dir_eq
      path_div_name prompt_path_def prompt_filename_form file_name_form_no_slash
      split: option.splits)

lemma save_agent_prompt_succeeds:
  assumes "\<forall>p. mkdir_error w p = None" and "\<forall>p. open_error w p = None"
  shows "\<exists>text. written (final_state (save_agent_prompt w agent content st))
        = written st @ [(prompt_path (if agent_type agent = ''orchestration''
                                      then ''orchestration'' else ''action'')
                           (file_name_form (agent_name agent)), text)]"
  using assms
  by (simp add: save_agent_prompt_def write_file_def Let_def prompt_target_dir_eq
      path_div_name prompt_path_def prompt_filename_form file_name_form_no_slash)

text \<open>
  C8 (amended). The prompt file of the iterative script is written at
  \<^verbatim>\<open>findings/system-prompts/orchestration/<name>.md\<close> when the agent's type is
  \<^verbatim>\<open>orchestration\<close> and at \<^verbatim>\<open>findings/system-prompts/action/<name>.md\<close> otherwise, with
  \<^verbatim>\<open><name>\<close> the file-name form of the agent's name; it is the only file written, and it
  is written whenever creating the directory and opening the file do not fail. The batch
  script writes, in order, the files expected for the pieces of the model's answer (all
  of them when nothing fails, a first part of them otherwise): each at
  \<^verbatim>\<open>findings/system-prompts/<kind>/<name>.md\<close>, where the kind is \<^verbatim>\<open>orchestration\<close> when the
  lower-cased text of the prompt holds one of the stems \<^verbatim>\<open>orchestrat\<close>, \<^verbatim>\<open>coordinat\<close>,
  \<^verbatim>\<open>rout\<close>, \<^verbatim>\<open>priorit\<close> and \<^verbatim>\<open>action\<close> otherwise, whatever type of agent the prompt
  describes. No \<^verbatim>\<open><name>\<close> holds a path separator, so no file lands outside the two
  directories.
\<close>

theorem prompt_files_in_tree:
  "(written (final_state (save_agent_prompt w agent content st)) = written st
    \<or> (\<exists>text. written (final_state (save_agent_prompt w agent content st))
         = written st @ [(prompt_path (if agent_type agent = ''orchestration''
                                       then ''orchestration'' else ''action'')
                            (file_name_form (agent_name agent)), text)]))
   \<and> ((\<forall>p. mkdir_error w p = None) \<and> (\<forall>p. open_error w p = None)
        \<longrightarrow> written (final_state (save_agent_prompt w agent content st)) \<noteq> written st)
   \<and> CHR ''/'' \<notin> set (file_name_form (agent_name agent))
   \<and> (\<exists>k. written (final_state (generate_system_prompts w analysis st))
         = written st @ take k
             (case generate w (AllPromptsRequest analysis) of
                Inl e \<Rightarrow> []
              | Inr prompts_text \<Rightarrow>
                  expected_prompt_files (split_str ''---AGENT---'' prompts_text)))
   \<and> ((\<forall>p. mkdir_error w p = None) \<and> (\<forall>p. open_error w p = None)
        \<longrightarrow> written (final_state (generate_system_prompts w analysis st))
            = written st @
             (case generate w (AllPromptsRequest analysis) of
                Inl e \<Rightarrow> []
              | Inr prompts_text \<Rightarrow>
                  expected_prompt_files (split_str ''---AGENT---'' prompts_text)))
   \<and> CHR ''/'' \<notin> set (name_in_prompt i agent_prompt)"
proof -
  have a: "written (final_state (save_agent_prompt w agent content st)) = written st
    \<or> (\<exists>text. written (final_state (save_agent_prompt w agent content st))
         = written st @ [(prompt_path (if agent_type agent = ''orchestration''
                                       then ''orchestration'' else ''action'')
                            (file_name_form (agent_name agent)), text)])"
    by (rule save_agent_prompt_file)
  have b: "(\<forall>p. mkdir_error w p = None) \<and> (\<forall>p. open_error w p = None)
        \<longrightarrow> written (final_state (save_agent_prompt w agent content st)) \<noteq> written st"
    using save_agent_prompt_succeeds [of w agent content st] by auto
  have c: "\<exists>k. written (final_state (generate_system_prompts w analysis st))
         = written st @ take k
             (case generate w (AllPromptsRequest analysis) of
                Inl e \<Rightarrow> []
              | Inr prompts_text \<Rightarrow>
                  expected_prompt_files (split_str ''---AGENT---'' prompts_text))"
  proof (cases "generate w (AllPromptsRequest analysis)")
    case (Inl e)
    then show ?thesis
      by (simp add: generate_system_prompts_no_answer)
  next
    case (Inr prompts_text)
    from generate_system_prompts_files [OF Inr, of st] Inr show ?thesis
      by simp
  qed
  have d: "(\<forall>p. mkdir_error w p = None) \<and> (\<forall>p. open_error w p = None)
        \<longrightarrow> written (final_state (generate_system_prompts w analysis st))
            = written st @
             (case generate w (AllPromptsRequest analysis) of
                Inl e \<Rightarrow> []
              | Inr prompts_text \<Rightarrow>
                  expected_prompt_files (split_str ''---AGENT---'' prompts_text))"
  proof (cases "generate w (AllPromptsRequest analysis)")
    case (Inl e)
    then show ?thesis
      by (simp add: generate_system_prompts_no_answer)
  next
    case (Inr prompts_text)
    show ?thesis
    proof (rule impI)
      assume "(\<forall>p. mkdir_error w p = None) \<and> (\<forall>p. open_error w p = None)"
      then have "written (final_state (generate_system_prompts w analysis st))
          = written st @ expected_prompt_files (split_str ''---AGENT---'' prompts_text)"
        using generate_system_prompts_all [OF Inr, of st] by blast
      with Inr show "written (final_state (generate_system_prompts w analysis st))
            = written st @
             (case generate w (AllPromptsRequest analysis) of
                Inl e \<Rightarrow> []
              | Inr prompts_text \<Rightarrow>
                  expected_prompt_files (split_str ''---AGENT---'' prompts_text))"
        by simp
    qed
  qed
  from a b c d file_name_form_no_slash name_in_prompt_no_slash show ?thesis
    by blast
qed

lemma example_expected_files:
  "expected_prompt_files (split_str ''---AGENT---'' ''# Agent: Task Router---AGENT---Writes reports'')
     = [(prompt_path ''orchestration'' ''task-router'', ''# Agent: Task Router''),
        (prompt_path ''action'' ''agent-2'', ''Writes reports'')]"
  by code_simp

lemma example_saved_prompt:
  "written (final_state (save_agent_prompt example_world auditor ''Audit.'' (init ''m'' [])))
     = [(prompt_path ''action'' ''log-auditor'',
         ''# log_auditor'' @ nl @ nl @ ''**Type**: Action'' @ nl @ ''**Priority**: Low'' @ nl
          @ ''**Generated**: 2024-05-01 12:00:00'' @ nl @ nl @ ''---'' @ nl @ nl @ ''Audit.'')]"
  by code_simp

lemma example_saved_router:
  "written (final_state (save_agent_prompt example_world router ''Route.'' (init ''m'' [])))
     = [(prompt_path ''orchestration'' ''task-router'',
         ''# Task Router'' @ nl @ nl @ ''**Type**: Orchestration'' @ nl @ ''**Priority**: High'' @ nl
          @ ''**Generated**: 2024-05-01 12:00:00'' @ nl @ nl @ ''---'' @ nl @ nl @ ''Route.'')]"
  by code_simp

theorem prompt_files_in_tree_witness:
  "(\<forall>p. mkdir_error example_world p = None) \<and> (\<forall>p. open_error example_world p = None)
   \<and> written (final_state (save_agent_prompt example_world router ''Route.'' (init ''m'' [])))
       \<noteq> written (init ''m'' [])
   \<and> agent_type router = ''orchestration''
   \<and> file_name_form (agent_name router) = ''task-router''
   \<and> fst (hd (written (final_state (save_agent_prompt example_world router ''Route.'' (init ''m'' [])))))
       = prompt_path ''orchestration'' ''task-router''
   \<and> agent_type auditor = ''action''
   \<and> fst (hd (written (final_state (save_agent_prompt example_world auditor ''Audit.'' (init ''m'' [])))))
       = prompt_path ''action'' ''log-auditor''
   \<and> written (final_state (generate_system_prompts example_world ''Analysis'' (init ''m'' [])))
       = [(prompt_path ''orchestration'' ''task-router'', ''# Agent: Task Router''),
          (prompt_path ''action'' ''agent-2'', ''Writes reports'')]"
proof -
  have u: "agent_type auditor = ''action''"
    by (simp add: auditor_def)
  have h: "(\<forall>p. mkdir_error example_world p = None) \<and> (\<forall>p. open_error example_world p = None)"
    by (simp add: example_world_def)
  have g: "generate example_world (AllPromptsRequest ''Analysis'')
             = Inr ''# Agent: Task Router---AGENT---Writes reports''"
    by (simp add: example_world_def)
  have t: "agent_type router = ''orchestration''"
    by (simp add: router_def)
  have f: "file_name_form (agent_name router) = ''task-router''"
    by code_simp
  have i: "written (init ''m'' []) = []"
    by (simp add: init_def)
  from prompt_files_in_tree [of example_world router "''Route.''" "init ''m'' []" "''Analysis''"] h
  have "written (final_state (save_agent_prompt example_world router ''Route.'' (init ''m'' [])))
          \<noteq> written (init ''m'' [])
      \<and> written (final_state (generate_system_prompts example_world ''Analysis'' (init ''m'' [])))
            = written (init ''m'' []) @
             (case generate example_world (AllPromptsRequest ''Analysis'') of
                Inl e \<Rightarrow> []
              | Inr prompts_text \<Rightarrow>
                  expected_prompt_files (split_str ''---AGENT---'' prompts_text))"
    by blast
  then have "written (final_state (save_agent_prompt example_world router ''Route.'' (init ''m'' [])))
          \<noteq> written (init ''m'' [])
      \<and> written (final_state (generate_system_prompts example_world ''Analysis'' (init ''m'' [])))
       = [(prompt_path ''orchestration'' ''task-router'', ''# Agent: Task Router''),
          (prompt_path ''action'' ''agent-2'', ''Writes reports'')]"
    unfolding g i by (simp add: example_expected_files)
  with h t f u show ?thesis
    unfolding example_saved_router example_saved_prompt by simp
qed

theorem prompt_files_in_tree_counterexample:
  "written (final_state (generate_system_prompts routine_world ''Analysis'' (init ''m'' [])))
     = [(prompt_path ''orchestration'' ''report-writer'',
         ''# Agent: Report Writer'' @ nl @ ''An action agent. It writes routine reports.'')]
   \<and> prompt_path ''orchestration'' ''report-writer'' \<noteq> prompt_path ''action'' ''report-writer''"
  by code_simp


section \<open>Claims about the review loop\<close>

lemma read_decision_decisions:
  "read_decision lines = None \<Longrightarrow> user_decisions lines = []"
  "read_decision lines = Some (d, rest) \<Longrightarrow> user_decisions lines = d # user_decisions rest"
  by (induction lines)
     (auto simp: user_decisions_def map_filter_simps split: option.splits)

lemma get_user_decision_returns:
  assumes "get_user_decision st = Returns d st1"
  shows "\<exists>lines. st1 = st\<lparr>stdin := lines\<rparr> \<and> user_decisions (stdin st) = d # user_decisions lines"
  using assms read_decision_decisions(2) [of "stdin st" d]
  by (auto simp: get_user_decision_def split: option.splits)

lemma get_user_decision_raises:
  assumes "get_user_decision st = Raises e st1"
  shows "st1 = st\<lparr>stdin := []\<rparr> \<and> user_decisions (stdin st) = []"
  using assms read_decision_decisions(1) [of "stdin st"]
  by (auto simp: get_user_decision_def split: option.splits)

lemma get_user_decision_next:
  assumes "user_decisions (stdin st) = d # ds"
  shows "\<exists>lines. get_user_decision st = Returns d (st\<lparr>stdin := lines\<rparr>) \<and> user_decisions lines = ds"
proof (cases "read_decision (stdin st)")
  case None
  with assms read_decision_decisions(1) show ?thesis by fastforce
next
  case (Some r)
  obtain d' lines where r: "r = (d', lines)" by (cases r)
  with Some read_decision_decisions(2) [of "stdin st" d' lines] assms
  have "d' = d" "user_decisions lines = ds" by simp_all
  with Some r have "get_user_decision st = Returns d (st\<lparr>stdin := lines\<rparr>)"
    by (simp add: get_user_decision_def)
  with \<open>user_decisions lines = ds\<close> show ?thesis by blast
qed

lemma save_agent_prompt_returns:
  assumes "save_agent_prompt w agent content st = Returns p st'"
  shows "p = prompt_path (if agent_type agent = ''orchestration'' then ''orchestration'' else ''action'')
           (prompt_filename agent)
     \<and> (\<exists>files. st' = st\<lparr>written := files\<rparr>)"
  using assms
  by (auto simp: save_agent_prompt_def write_file_def Let_def prompt_target_dir_eq
      path_div_name [OF prompt_filename_no_slash] prompt_path_def
      split: option.splits)

lemma save_agent_prompt_raises:
  "save_agent_prompt w agent content st = Raises e st' \<Longrightarrow> st' = st"
  by (auto simp: save_agent_prompt_def write_file_def Let_def split: option.splits)

lemma relative_to_cwd: "\<not> anchored p \<Longrightarrow> relative_to p (cwd w) = None"
  by (simp add: relative_to_def cwd_def)

text \<open>A 'yes' decision: the review ends with an exception, no bucket has changed.\<close>

lemma review_yes:
  assumes "get_user_decision (present_suggestion agent i n st) = Returns ''yes'' st1"
  shows "\<exists>e st2. review w n i (agent # agents) st = Raises e st2
          \<and> accepted st2 = accepted st \<and> rejected st2 = rejected st \<and> skipped st2 = skipped st
          \<and> presented st2 = presented st @ [(agent, i, n)]"
proof -
  from get_user_decision_returns [OF assms]
  obtain lines where st1: "st1 = (present_suggestion agent i n st)\<lparr>stdin := lines\<rparr>" by blast
  show ?thesis
  proof (cases "save_agent_prompt w agent (generate_system_prompt w agent) st1")
    case (Raises e st2)
    from save_agent_prompt_raises [OF Raises] have "st2 = st1" .
    with Raises assms have "review w n i (agent # agents) st = Raises e st1"
      by simp
    moreover from st1 have "accepted st1 = accepted st \<and> rejected st1 = rejected st
        \<and> skipped st1 = skipped st \<and> presented st1 = presented st @ [(agent, i, n)]"
      by (simp add: present_suggestion_def)
    ultimately show ?thesis by blast
  next
    case (Returns p st2)
    from save_agent_prompt_returns [OF Returns]
    obtain files where p: "\<not> anchored p" and st2: "st2 = st1\<lparr>written := files\<rparr>"
      by (auto simp: prompt_path_def)
    from relative_to_cwd [OF p] have "relative_to p (cwd w) = None" .
    with Returns assms
    have "review w n i (agent # agents) st = Raises (ValueError (subpath_message w p (cwd w))) st2"
      by simp
    moreover from st1 st2 have "accepted st2 = accepted st \<and> rejected st2 = rejected st
        \<and> skipped st2 = skipped st \<and> presented st2 = presented st @ [(agent, i, n)]"
      by (simp add: present_suggestion_def)
    ultimately show ?thesis by blast
  qed
qed


text \<open>One iteration: the suggestion is presented; then the loop ends (by an exception or
  by \<^verbatim>\<open>break\<close>) or goes on with the next index.\<close>

lemma review_step:
  "\<exists>st'. presented st' = presented st @ [(agent, i, n)]
     \<and> ((\<exists>e. review w n i (agent # agents) st = Raises e st')
        \<or> review w n i (agent # agents) st = Returns () st'
        \<or> review w n i (agent # agents) st = review w n (i + 1) agents st')"
proof (cases "get_user_decision (present_suggestion agent i n st)")
  case (Raises e st1)
  from get_user_decision_raises [OF Raises]
  have "presented st1 = presented st @ [(agent, i, n)]"
    by (simp add: present_suggestion_def)
  with Raises show ?thesis by auto
next
  case (Returns d st1)
  from get_user_decision_returns [OF Returns]
  obtain lines where st1: "st1 = (present_suggestion agent i n st)\<lparr>stdin := lines\<rparr>" by blast
  then have pr: "presented st1 = presented st @ [(agent, i, n)]"
    by (simp add: present_suggestion_def)
  show ?thesis
  proof (cases "d = ''yes''")
    case True
    with Returns review_yes [of agent i n st st1 w agents] show ?thesis by blast
  next
    case False
    let ?r = "st1\<lparr>rejected := rejected st1 @ [agent]\<rparr>"
    let ?s = "st1\<lparr>skipped := skipped st1 @ [agent]\<rparr>"
    have r: "presented ?r = presented st @ [(agent, i, n)]"
      and s: "presented ?s = presented st @ [(agent, i, n)]"
      using pr by simp_all
    consider (no) "d = ''no''" | (skip) "d \<noteq> ''no''" "d = ''skip''"
      | (stop) "d \<noteq> ''no''" "d \<noteq> ''skip''" "d = ''stop''"
      | (other) "d \<noteq> ''no''" "d \<noteq> ''skip''" "d \<noteq> ''stop''"
      by blast
    then show ?thesis
    proof cases
      case no
      with False Returns have "review w n i (agent # agents) st = review w n (i + 1) agents ?r"
        by simp
      with r show ?thesis by blast
    next
      case skip
      with False Returns have "review w n i (agent # agents) st = review w n (i + 1) agents ?s"
        by simp
      with s show ?thesis by blast
    next
      case stop
      with False Returns have "review w n i (agent # agents) st = Returns () st1"
        by simp
      with pr show ?thesis by blast
    next
      case other
      with False Returns have "review w n i (agent # agents) st = review w n (i + 1) agents st1"
        by simp
      with pr show ?thesis by blast
    qed
  qed
qed

lemma review_presents_prefix:
  "\<exists>k \<le> length agents. presented (final_state (review w n i agents st))
       = presented st @ map (\<lambda>(j, agent). (agent, j, n)) (take k (List.enumerate i agents))"
proof (induction agents arbitrary: i st)
  case Nil
  then show ?case by simp
next
  case (Cons agent agents)
  from review_step [of st agent i n w agents]
  obtain st' where pr: "presented st' = presented st @ [(agent, i, n)]"
    and c: "(\<exists>e. review w n i (agent # agents) st = Raises e st')
        \<or> review w n i (agent # agents) st = Returns () st'
        \<or> review w n i (agent # agents) st = review w n (i + 1) agents st'"
    by blast
  have one: "map (\<lambda>(j, agent). (agent, j, n)) (take 1 (List.enumerate i (agent # agents)))
      = [(agent, i, n)]"
    by (simp add: enumerate_simps)
  from c
  have "final_state (review w n i (agent # agents) st) = st'
     \<or> review w n i (agent # agents) st = review w n (i + 1) agents st'"
  proof (elim disjE exE)
    fix e assume a: "review w n i (agent # agents) st = Raises e st'"
    show ?thesis unfolding a by simp
  next
    assume a: "review w n i (agent # agents) st = Returns () st'"
    show ?thesis unfolding a by simp
  next
    assume "review w n i (agent # agents) st = review w n (i + 1) agents st'"
    then show ?thesis by (rule disjI2)
  qed
  then show ?case
  proof
    assume a: "final_state (review w n i (agent # agents) st) = st'"
    have "presented (final_state (review w n i (agent # agents) st))
       = presented st @ map (\<lambda>(j, agent). (agent, j, n)) (take 1 (List.enumerate i (agent # agents)))"
      unfolding a one by (rule pr)
    then show ?thesis
      by (intro exI [of _ 1] conjI) simp_all
  next
    assume a: "review w n i (agent # agents) st = review w n (i + 1) agents st'"
    from Cons.IH [of "i + 1" st'] obtain k where k: "k \<le> length agents"
      and ih: "presented (final_state (review w n (i + 1) agents st'))
         = presented st' @ map (\<lambda>(j, agent). (agent, j, n)) (take k (List.enumerate (i + 1) agents))"
      by blast
    have e: "map (\<lambda>(j, agent). (agent, j, n)) (take (Suc k) (List.enumerate i (agent # agents)))
       = (agent, i, n) # map (\<lambda>(j, agent). (agent, j, n)) (take k (List.enumerate (i + 1) agents))"
      by (simp add: enumerate_simps)
    have "presented (final_state (review w n i (agent # agents) st))
         = presented st @ map (\<lambda>(j, agent). (agent, j, n)) (take (Suc k) (List.enumerate i (agent # agents)))"
      unfolding a ih pr e by simp
    moreover from k have "Suc k \<le> length (agent # agents)" by simp
    ultimately show ?thesis by blast
  qed
qed

lemma review_no_skip:
  assumes "user_decisions (stdin st) = d # ds" and "d = ''no'' \<or> d = ''skip''"
  shows "\<exists>st'. review w n i (agent # agents) st = review w n (i + 1) agents st'
     \<and> presented st' = presented st @ [(agent, i, n)]
     \<and> user_decisions (stdin st') = ds"
proof -
  from assms(1) have "user_decisions (stdin (present_suggestion agent i n st)) = d # ds"
    by (simp add: present_suggestion_def)
  from get_user_decision_next [OF this] obtain lines
    where g: "get_user_decision (present_suggestion agent i n st)
                = Returns d ((present_suggestion agent i n st)\<lparr>stdin := lines\<rparr>)"
      and l: "user_decisions lines = ds"
    by blast
  let ?st1 = "(present_suggestion agent i n st)\<lparr>stdin := lines\<rparr>"
  from assms(2) show ?thesis
  proof
    assume "d = ''no''"
    with g have "review w n i (agent # agents) st
        = review w n (i + 1) agents (?st1\<lparr>rejected := rejected ?st1 @ [agent]\<rparr>)"
      by simp
    with l show ?thesis
      by (intro exI [of _ "?st1\<lparr>rejected := rejected ?st1 @ [agent]\<rparr>"])
         (simp add: present_suggestion_def)
  next
    assume "d = ''skip''"
    with g have "review w n i (agent # agents) st
        = review w n (i + 1) agents (?st1\<lparr>skipped := skipped ?st1 @ [agent]\<rparr>)"
      by simp
    with l show ?thesis
      by (intro exI [of _ "?st1\<lparr>skipped := skipped ?st1 @ [agent]\<rparr>"])
         (simp add: present_suggestion_def)
  qed
qed

lemma review_stop:
  assumes "user_decisions (stdin st) = ''stop'' # ds"
  shows "\<exists>st'. review w n i (agent # agents) st = Returns () st'
     \<and> presented st' = presented st @ [(agent, i, n)]
     \<and> accepted st' = accepted st \<and> rejected st' = rejected st \<and> skipped st' = skipped st"
proof -
  from assms have "user_decisions (stdin (present_suggestion agent i n st)) = ''stop'' # ds"
    by (simp add: present_suggestion_def)
  from get_user_decision_next [OF this] obtain lines
    where g: "get_user_decision (present_suggestion agent i n st)
                = Returns ''stop'' ((present_suggestion agent i n st)\<lparr>stdin := lines\<rparr>)"
    by blast
  then have "review w n i (agent # agents) st
      = Returns () ((present_suggestion agent i n st)\<lparr>stdin := lines\<rparr>)"
    by simp
  then show ?thesis
    by (simp add: present_suggestion_def)
qed

lemma review_all:
  assumes "user_decisions (stdin st) = ds" and "length agents \<le> length ds"
    and "set (take (length agents) ds) \<subseteq> {''no'', ''skip''}"
  shows "\<exists>st'. review w n i agents st = Returns () st'
     \<and> presented st' = presented st @ map (\<lambda>(j, agent). (agent, j, n)) (List.enumerate i agents)"
  using assms
proof (induction agents arbitrary: i st ds)
  case Nil
  then show ?case by simp
next
  case (Cons agent agents)
  from Cons.prems(2) obtain d ds' where ds: "ds = d # ds'" by (cases ds) auto
  with Cons.prems have d: "d = ''no'' \<or> d = ''skip''" and len: "length agents \<le> length ds'"
    and rest: "set (take (length agents) ds') \<subseteq> {''no'', ''skip''}"
    by auto
  from review_no_skip [OF Cons.prems(1) [unfolded ds] d, of w n i agent agents]
  obtain st1 where r: "review w n i (agent # agents) st = review w n (i + 1) agents st1"
    and pr: "presented st1 = presented st @ [(agent, i, n)]"
    and u: "user_decisions (stdin st1) = ds'"
    by blast
  from Cons.IH [OF u len rest, of "i + 1"] r pr show ?case
    by (auto simp: enumerate_simps)
qed

lemma review_until_stop:
  assumes "user_decisions (stdin st) = ds" and "k < length agents" and "k < length ds"
    and "set (take k ds) \<subseteq> {''no'', ''skip''}" and "ds ! k = ''stop''"
  shows "\<exists>st'. review w n i agents st = Returns () st'
     \<and> presented st' = presented st @ map (\<lambda>(j, agent). (agent, j, n)) (take (Suc k) (List.enumerate i agents))"
  using assms
proof (induction agents arbitrary: i st ds k)
  case Nil
  then show ?case by simp
next
  case (Cons agent agents)
  from Cons.prems(3) obtain d ds' where ds: "ds = d # ds'" by (cases ds) auto
  show ?case
  proof (cases k)
    case 0
    with Cons.prems(5) ds have "d = ''stop''" by simp
    with review_stop [of st ds' w n i agent agents] Cons.prems(1) ds 0 show ?thesis
      by (auto simp: enumerate_simps)
  next
    case (Suc k')
    with Cons.prems ds have d: "d = ''no'' \<or> d = ''skip''" and k': "k' < length agents"
      "k' < length ds'" "set (take k' ds') \<subseteq> {''no'', ''skip''}" "ds' ! k' = ''stop''"
      by auto
    from review_no_skip [OF Cons.prems(1) [unfolded ds] d, of w n i agent agents]
    obtain st1 where r: "review w n i (agent # agents) st = review w n (i + 1) agents st1"
      and pr: "presented st1 = presented st @ [(agent, i, n)]"
      and u: "user_decisions (stdin st1) = ds'"
      by blast
    from Cons.IH [OF u k', of "i + 1"] r pr Suc show ?thesis
      by (auto simp: enumerate_simps)
  qed
qed

lemma save_summary_written:
  assumes "save_summary w directory st = Returns p st'"
  shows "p = summary_file
    \<and> st' = st\<lparr>written := written st @ [(summary_file, concat (summary_chunks w st directory))]\<rparr>"
  using assms
  by (auto simp: save_summary_def write_file_def split: option.splits)

lemma save_summary_raises:
  "save_summary w directory st = Raises e st' \<Longrightarrow> st' = st"
  by (auto simp: save_summary_def write_file_def split: option.splits)

lemma run_iterative_presented:
  assumes "total_files (discover_agents (disk w) directory) \<noteq> 0"
    and "build_context w directory (discover_agents (disk w) directory) = Inr context"
    and "generate_agent_suggestions w context = Inr suggestions" and "suggestions \<noteq> []"
  shows "presented (final_state (run_iterative w directory st))
       = presented (final_state (review w (length suggestions) 1 suggestions st))"
proof (cases "review w (length suggestions) 1 suggestions st")
  case (Raises e st1)
  with assms show ?thesis
    by (simp add: run_iterative_def Let_def)
next
  case (Returns u st1)
  show ?thesis
  proof (cases "save_summary w directory st1")
    case r: (Returns p st2)
    from save_summary_written [OF r] have "presented st2 = presented st1" by simp
    with r Returns assms show ?thesis
      by (simp add: run_iterative_def Let_def)
  next
    case r: (Raises e st2)
    from save_summary_raises [OF r] r Returns assms show ?thesis
      by (simp add: run_iterative_def Let_def)
  qed
qed


section \<open>The review iterations of a run\<close>

lemma take_presentations:
  "take k (presentations suggestions)
     = map (\<lambda>(i, agent). (agent, i, length suggestions)) (take k (List.enumerate 1 suggestions))"
  by (simp add: presentations_def take_map)

text \<open>
  C1 (amended). When \<open>generate_agent_suggestions\<close> has returned a list of \<open>N > 0\<close>
  suggestions, \<open>run_iterative\<close> presents the suggestions in the order of the list, the
  \<open>i\<close>-th as \<open>i\<close> of \<open>N\<close>, one per iteration and never more than \<open>N\<close>. It performs exactly
  \<open>N\<close> iterations when the reviewer's first \<open>N\<close> decisions are all \<^verbatim>\<open>no\<close> or \<^verbatim>\<open>skip\<close>; a
  \<^verbatim>\<open>stop\<close> as decision number \<open>k + 1\<close>, after \<open>k\<close> decisions \<^verbatim>\<open>no\<close> or \<^verbatim>\<open>skip\<close>, ends the
  review after exactly \<open>k + 1\<close> iterations.
\<close>

theorem review_iterations:
  assumes files: "total_files (discover_agents (disk w) directory) \<noteq> 0"
    and ctx: "build_context w directory (discover_agents (disk w) directory) = Inr context"
    and sug: "generate_agent_suggestions w context = Inr suggestions"
    and ne: "suggestions \<noteq> []"
  shows "(\<exists>k \<le> length suggestions.
            presented (final_state (run_iterative w directory st))
              = presented st @ take k (presentations suggestions))
     \<and> (length suggestions \<le> length (user_decisions (stdin st))
          \<and> set (take (length suggestions) (user_decisions (stdin st))) \<subseteq> {''no'', ''skip''}
          \<longrightarrow> presented (final_state (run_iterative w directory st))
                = presented st @ presentations suggestions)
     \<and> (\<forall>k. k < length suggestions \<and> k < length (user_decisions (stdin st))
              \<and> set (take k (user_decisions (stdin st))) \<subseteq> {''no'', ''skip''}
              \<and> user_decisions (stdin st) ! k = ''stop''
          \<longrightarrow> presented (final_state (run_iterative w directory st))
                = presented st @ take (Suc k) (presentations suggestions))"
proof -
  let ?n = "length suggestions"
  let ?ds = "user_decisions (stdin st)"
  note run = run_iterative_presented [OF files ctx sug ne, of st]
  have a: "\<exists>k \<le> ?n. presented (final_state (run_iterative w directory st))
              = presented st @ take k (presentations suggestions)"
    unfolding run take_presentations by (rule review_presents_prefix)
  have b: "presented (final_state (run_iterative w directory st))
                = presented st @ presentations suggestions"
    if "?n \<le> length ?ds \<and> set (take ?n ?ds) \<subseteq> {''no'', ''skip''}"
  proof -
    from that review_all [of st ?ds suggestions w ?n 1]
    obtain st' where r: "review w ?n 1 suggestions st = Returns () st'"
      and p: "presented st' = presented st @ map (\<lambda>(j, agent). (agent, j, ?n)) (List.enumerate 1 suggestions)"
      by blast
    show ?thesis unfolding run r presentations_def using p by simp
  qed
  have c: "presented (final_state (run_iterative w directory st))
                = presented st @ take (Suc k) (presentations suggestions)"
    if "k < ?n \<and> k < length ?ds \<and> set (take k ?ds) \<subseteq> {''no'', ''skip''} \<and> ?ds ! k = ''stop''"
    for k
  proof -
    from that review_until_stop [of st ?ds k suggestions w ?n 1]
    obtain st' where r: "review w ?n 1 suggestions st = Returns () st'"
      and p: "presented st' = presented st @ map (\<lambda>(j, agent). (agent, j, ?n)) (take (Suc k) (List.enumerate 1 suggestions))"
      by blast
    show ?thesis unfolding run r take_presentations using p by simp
  qed
  from a b c show ?thesis by blast
qed

lemma example_files: "total_files (discover_agents (disk example_world) example_dir) \<noteq> 0"
  by code_simp

lemma example_build_context:
  "build_context example_world example_dir (discover_agents (disk example_world) example_dir)
     = Inr example_context"
  by code_simp

lemma example_suggestions:
  "generate_agent_suggestions example_world example_context = Inr [router, auditor]"
  by code_simp

lemma example_stop_run:
  "presented (final_state (run_iterative example_world example_dir (init ''m'' [''q''])))
     = [(router, 1, 2)]"
  by code_simp

lemma example_full_run:
  "presented (final_state (run_iterative example_world example_dir (init ''m'' [''n'', ''bogus'', ''S''])))
     = [(router, 1, 2), (auditor, 2, 2)]"
  by code_simp

lemma example_decisions:
  "user_decisions [''n'', ''bogus'', ''S''] = [''no'', ''skip'']"
  "user_decisions [''q''] = [''stop'']"
  "user_decisions [''y''] = [''yes'']"
  by code_simp+


text \<open>
  The claim as stated (always exactly \<open>N\<close> iterations) fails: with two suggestions and
  the answer \<^verbatim>\<open>q\<close> to the first, one suggestion is presented.
\<close>

theorem review_iterations_counterexample:
  "total_files (discover_agents (disk example_world) example_dir) \<noteq> 0
   \<and> build_context example_world example_dir (discover_agents (disk example_world) example_dir)
       = Inr example_context
   \<and> generate_agent_suggestions example_world example_context = Inr [router, auditor]
   \<and> user_decisions [''q''] = [''stop'']
   \<and> presented (final_state (run_iterative example_world example_dir (init ''m'' [''q''])))
       = [(router, 1, 2)]
   \<and> presented (final_state (run_iterative example_world example_dir (init ''m'' [''q''])))
       \<noteq> presentations [router, auditor]
   \<and> length (presented (final_state (run_iterative example_world example_dir (init ''m'' [''q'']))))
       \<noteq> length [router, auditor]"
  using example_files example_build_context example_suggestions example_decisions(2)
  by (simp add: example_stop_run presentations_def enumerate_simps)

theorem review_iterations_witness:
  "total_files (discover_agents (disk example_world) example_dir) \<noteq> 0
   \<and> build_context example_world example_dir (discover_agents (disk example_world) example_dir)
       = Inr example_context
   \<and> generate_agent_suggestions example_world example_context = Inr [router, auditor]
   \<and> user_decisions (stdin (init ''m'' [''n'', ''bogus'', ''S''])) = [''no'', ''skip'']
   \<and> presented (final_state (run_iterative example_world example_dir
                                  (init ''m'' [''n'', ''bogus'', ''S''])))
       = [(router, 1, 2), (auditor, 2, 2)]
   \<and> user_decisions (stdin (init ''m'' [''q''])) = [''stop'']
   \<and> presented (final_state (run_iterative example_world example_dir (init ''m'' [''q''])))
       = [(router, 1, 2)]"
proof -
  have ne: "[router, auditor] \<noteq> []" by simp
  have d1: "user_decisions (stdin (init ''m'' [''n'', ''bogus'', ''S''])) = [''no'', ''skip'']"
    and d2: "user_decisions (stdin (init ''m'' [''q''])) = [''stop'']"
    by (simp_all add: init_def example_decisions)
  have p: "presentations [router, auditor] = [(router, 1, 2), (auditor, 2, 2)]"
    by (simp add: presentations_def enumerate_simps)
  have i: "presented (init ''m'' lines) = []" for lines
    by (simp add: init_def)
  note t = review_iterations [OF example_files example_build_context example_suggestions ne]
  from t [of "init ''m'' [''n'', ''bogus'', ''S'']"]
  have "presented (final_state (run_iterative example_world example_dir
                                  (init ''m'' [''n'', ''bogus'', ''S''])))
       = [(router, 1, 2), (auditor, 2, 2)]"
    unfolding d1 p i by simp
  moreover from t [of "init ''m'' [''q'']"]
  have "0 < length [router, auditor] \<and> 0 < length [''stop'']
          \<and> set (take 0 [''stop'']) \<subseteq> {''no'', ''skip''} \<and> [''stop''] ! 0 = ''stop''
        \<longrightarrow> presented (final_state (run_iterative example_world example_dir (init ''m'' [''q''])))
            = presented (init ''m'' [''q'']) @ take (Suc 0) (presentations [router, auditor])"
    unfolding d2 by blast
  then have "presented (final_state (run_iterative example_world example_dir (init ''m'' [''q''])))
       = [(router, 1, 2)]"
    unfolding p i by simp
  ultimately show ?thesis
    using example_files example_build_context example_suggestions d1 d2 by blast
qed

text \<open>
  C2. The decisions \<^verbatim>\<open>no\<close>, \<^verbatim>\<open>skip\<close> and \<^verbatim>\<open>stop\<close> do what the claim says
  (\<open>review_no_skip\<close>, \<open>review_stop\<close>). A \<^verbatim>\<open>yes\<close> does not: the prompt file is saved,
  then \<^verbatim>\<open>output_file.relative_to(Path.cwd())\<close> raises \<^verbatim>\<open>ValueError\<close>, the path being
  relative and the working directory absolute, before the agent is appended
  (\<open>review_yes\<close>). Here the run with two suggestions and the answer \<^verbatim>\<open>y\<close>: it ends with
  the exception, the first suggestion presented, its prompt file written, and the
  accepted bucket empty.
\<close>

theorem yes_decision_raises:
  "generate_agent_suggestions example_world example_context = Inr [router, auditor]
   \<and> user_decisions [''y''] = [''yes'']
   \<and> run_iterative example_world example_dir (init ''m'' [''y''])
       = Raises (ValueError
           ([CHR 0x27] @ ''findings/system-prompts/orchestration/task-router.md'' @ [CHR 0x27]
             @ '' is not in the subpath of '' @ [CHR 0x27] @ ''/srv/net'' @ [CHR 0x27]
             @ '' OR one path is relative and the other is absolute.''))
           ((init ''m'' [])
              \<lparr>presented := [(router, 1, 2)],
               written := [(prompt_path ''orchestration'' ''task-router'',
                            ''# Task Router'' @ nl @ nl @ ''**Type**: Orchestration'' @ nl
                             @ ''**Priority**: High'' @ nl
                             @ ''**Generated**: 2024-05-01 12:00:00'' @ nl @ nl
                             @ ''---'' @ nl @ nl @ ''You are an agent.'')]\<rparr>)
   \<and> accepted (final_state (run_iterative example_world example_dir (init ''m'' [''y'']))) = []"
proof -
  have r: "run_iterative example_world example_dir (init ''m'' [''y''])
       = Raises (ValueError
           ([CHR 0x27] @ ''findings/system-prompts/orchestration/task-router.md'' @ [CHR 0x27]
             @ '' is not in the subpath of '' @ [CHR 0x27] @ ''/srv/net'' @ [CHR 0x27]
             @ '' OR one path is relative and the other is absolute.''))
           ((init ''m'' [])
              \<lparr>presented := [(router, 1, 2)],
               written := [(prompt_path ''orchestration'' ''task-router'',
                            ''# Task Router'' @ nl @ nl @ ''**Type**: Orchestration'' @ nl
                             @ ''**Priority**: High'' @ nl
                             @ ''**Generated**: 2024-05-01 12:00:00'' @ nl @ nl
                             @ ''---'' @ nl @ nl @ ''You are an agent.'')]\<rparr>)"
    by code_simp
  have a: "accepted (final_state (run_iterative example_world example_dir (init ''m'' [''y'']))) = []"
    unfolding r by (simp add: init_def)
  from example_suggestions example_decisions(3) r a show ?thesis by blast
qed


section \<open>Claims about the summary file\<close>





lemma one_line_append: "one_line (a @ b) \<longleftrightarrow> one_line a \<and> one_line b"
  by (auto simp: one_line_def)













































end
